theory Spec2Isabelle
  imports Main
begin

section \<open>Identifiers, time and errors\<close>

text \<open>
  An ObjectId is represented by its canonical (lower-case) 24-digit hexadecimal string,
  which is what \<^verbatim>\<open>toString()\<close> yields; a \<^verbatim>\<open>Date\<close> is the number of milliseconds since the epoch.
  \<^verbatim>\<open>ObjectId.isValid\<close> and the \<^verbatim>\<open>ObjectId\<close> constructor belong to the database driver; on
  strings they accept 24 hexadecimal digits of either case, and two strings that differ
  only in case denote the same identifier.
\<close>

type_synonym oid = string
type_synonym time = int

definition isHex :: "char \<Rightarrow> bool" where
  "isHex c = (c \<in> set ''0123456789abcdefABCDEF'')"

definition ObjectId_isValid :: "string \<Rightarrow> bool" where
  "ObjectId_isValid s = (length s = 24 \<and> list_all isHex s)"

definition lowerHex :: "char \<Rightarrow> char" where
  "lowerHex c =
     (if c = CHR ''A'' then CHR ''a'' else if c = CHR ''B'' then CHR ''b''
      else if c = CHR ''C'' then CHR ''c'' else if c = CHR ''D'' then CHR ''d''
      else if c = CHR ''E'' then CHR ''e'' else if c = CHR ''F'' then CHR ''f'' else c)"

definition ObjectId :: "string \<Rightarrow> oid" where
  "ObjectId s = map lowerHex s"

text \<open>\<^verbatim>\<open>objectIdSchema = z.string().refine((value) => ObjectId.isValid(value))\<close>\<close>

definition objectIdSchema :: "string \<Rightarrow> bool" where
  "objectIdSchema v = ObjectId_isValid v"

text \<open>
  What a data-layer call can throw: a schema violation (\<^verbatim>\<open>ZodError\<close>), an error raised by
  the store (\<^verbatim>\<open>MongoError\<close>: unavailable store, duplicate key), an error of the object
  storage, or an \<^verbatim>\<open>Error\<close> thrown by the code itself with its message.
\<close>

datatype error = ZodError | MongoError | S3Error | Error string

section \<open>Documents and collections\<close>

datatype 'a field = Absent | Null | Val 'a

datatype action =
    UPLOAD | DOWNLOAD | NAME_CHANGE | CATEGORY_CHANGE | DELETE | SHARE_CREATED
  | SHARE_ACCESSED | EXPIRED_LINK_ATTEMPT | SHARE_REVOKED | SHARES_REVOKED_ALL

record user =
  u_id :: oid
  u_username :: string
  u_email :: string
  u_password :: string

record fileDoc =
  f_id :: oid
  f_filename :: string
  f_description :: "string option"
  f_category :: string
  f_size :: int
  f_mimetype :: string
  f_s3Key :: string
  f_ownerId :: oid
  f_accessCount :: int
  f_lastAccessedAt :: time
  f_updatedAt :: time

record shareLink =
  sl_token :: string
  sl_fileId :: oid
  sl_ownerId :: oid
  sl_expiresAt :: "time option"
  sl_maxAccessCount :: "int option"
  sl_accessCount :: int
  sl_isActive :: bool
  sl_createdAt :: time
  sl_updatedAt :: time

record userShare =
  us_id :: oid
  us_fileId :: oid
  us_ownerId :: oid
  us_recipientId :: oid
  us_expiresAt :: "time option"
  us_maxAccessCount :: "int option"
  us_accessCount :: int
  us_isActive :: bool
  us_createdAt :: time
  us_updatedAt :: time

record auditLog =
  al_fileId :: "oid option"
  al_action :: action
  al_userId :: "oid field"
  al_username :: "string option"
  al_ipAddress :: "string option"
  al_location :: "string option"
  al_details :: "(string \<times> string) list option"
  al_timestamp :: time

text \<open>
  The five collections of the database, each a list of documents in natural (insertion)
  order. Fields of the documents that no modelled function reads or writes
  (\<^verbatim>\<open>originalFilename\<close>, \<^verbatim>\<open>uploadedAt\<close>, \<^verbatim>\<open>createdAt\<close> of a file, \<^verbatim>\<open>lastLogin\<close> of a user, the
  \<^verbatim>\<open>_id\<close> of a share link or an audit entry) are left out.
\<close>

record db =
  users :: "user list"
  files :: "fileDoc list"
  shareLinks :: "shareLink list"
  userShares :: "userShare list"
  auditLogs :: "auditLog list"

subsection \<open>The store's operations on one collection\<close>

text \<open>
  \<^verbatim>\<open>findOne\<close> returns the first document that matches, \<^verbatim>\<open>updateOne\<close> and \<^verbatim>\<open>deleteOne\<close> act
  on the first document that matches, \<^verbatim>\<open>updateMany\<close> and \<^verbatim>\<open>deleteMany\<close> on all of them, and
  \<^verbatim>\<open>insertOne\<close> adds a document at the end. A call to the store can also throw: the
  functions below take that as a parameter where the properties studied depend on it
  (\<^verbatim>\<open>deleteFile\<close>, \<^verbatim>\<open>deleteUserAccount\<close>, \<^verbatim>\<open>createAuditLog\<close>), and are otherwise those of a
  store that answers.
\<close>

definition findOne :: "('a \<Rightarrow> bool) \<Rightarrow> 'a list \<Rightarrow> 'a option" where
  "findOne p xs = find p xs"

fun updateOne :: "('a \<Rightarrow> bool) \<Rightarrow> ('a \<Rightarrow> 'a) \<Rightarrow> 'a list \<Rightarrow> 'a list" where
  "updateOne p g [] = []"
| "updateOne p g (x # xs) = (if p x then g x # xs else x # updateOne p g xs)"

definition updateMany :: "('a \<Rightarrow> bool) \<Rightarrow> ('a \<Rightarrow> 'a) \<Rightarrow> 'a list \<Rightarrow> 'a list" where
  "updateMany p g xs = map (\<lambda>x. if p x then g x else x) xs"

fun deleteOne :: "('a \<Rightarrow> bool) \<Rightarrow> 'a list \<Rightarrow> 'a list" where
  "deleteOne p [] = []"
| "deleteOne p (x # xs) = (if p x then xs else x # deleteOne p xs)"

definition deleteMany :: "('a \<Rightarrow> bool) \<Rightarrow> 'a list \<Rightarrow> 'a list" where
  "deleteMany p xs = filter (\<lambda>x. \<not> p x) xs"

definition matched :: "('a \<Rightarrow> bool) \<Rightarrow> 'a list \<Rightarrow> nat" where
  "matched p xs = length (filter p xs)"

definition insertOne :: "'a \<Rightarrow> 'a list \<Rightarrow> 'a list" where
  "insertOne x xs = xs @ [x]"

section \<open>userShares.js\<close>

text \<open>
  \<^verbatim>\<open>validateUserShare(shareId)\<close>: one \<^verbatim>\<open>findOne\<close> by \<^verbatim>\<open>_id\<close>, then the three tests in the
  order of the source. The call reads the clock once (\<open>now\<close>). It returns its verdict
  together with the database it leaves behind.
\<close>

definition validateUserShare :: "time \<Rightarrow> string \<Rightarrow> db \<Rightarrow> (error + bool) \<times> db" where
  "validateUserShare now shareId d =
     (if \<not> objectIdSchema shareId then (Inl ZodError, d)
      else
        (case findOne (\<lambda>s. us_id s = ObjectId shareId) (userShares d) of
           None \<Rightarrow> (Inr False, d)
         | Some share \<Rightarrow>
             if \<not> us_isActive share then (Inr False, d)
             else if (case us_expiresAt share of None \<Rightarrow> False | Some e \<Rightarrow> now \<ge> e)
               then (Inr False, d)
             else if (case us_maxAccessCount share of None \<Rightarrow> False
                      | Some m \<Rightarrow> us_accessCount share \<ge> m)
               then (Inr False, d)
             else (Inr True, d)))"

text \<open>
  \<^verbatim>\<open>createUserShareSchema\<close>: the three identifiers are ObjectIds, the minutes lie between 10
  and 525960, the count is positive, one of the two is given, and the owner string differs
  from the recipient string. The numbers are integers by type.
\<close>

record userShareData =
  usd_fileId :: string
  usd_ownerId :: string
  usd_recipientId :: string
  usd_expirationMinutes :: "int option"
  usd_maxAccessCount :: "int option"

definition positiveIntSchema :: "int \<Rightarrow> bool" where
  "positiveIntSchema n = (0 < n)"

definition createUserShareSchema :: "userShareData \<Rightarrow> bool" where
  "createUserShareSchema v =
     (objectIdSchema (usd_fileId v) \<and> objectIdSchema (usd_ownerId v) \<and>
      objectIdSchema (usd_recipientId v) \<and>
      (case usd_expirationMinutes v of None \<Rightarrow> True | Some m \<Rightarrow> 10 \<le> m \<and> m \<le> 525960) \<and>
      (case usd_maxAccessCount v of None \<Rightarrow> True | Some c \<Rightarrow> positiveIntSchema c) \<and>
      (usd_expirationMinutes v \<noteq> None \<or> usd_maxAccessCount v \<noteq> None) \<and>
      usd_ownerId v \<noteq> usd_recipientId v)"

text \<open>
  \<^verbatim>\<open>createUserShare(userShareData)\<close>. \<open>newId\<close> is the \<^verbatim>\<open>_id\<close> the driver generates for the
  inserted document; the store refuses a second document with an \<^verbatim>\<open>_id\<close> it already holds
  (after the update before it has been applied). The calls of \<^verbatim>\<open>new Date()\<close> within one
  invocation all read \<open>now\<close>, and \<^verbatim>\<open>setMinutes(getMinutes() + m)\<close> adds \<open>m\<close> minutes.
\<close>

definition deactivated :: "time \<Rightarrow> userShare \<Rightarrow> userShare" where
  "deactivated now s = s\<lparr>us_isActive := False, us_updatedAt := now\<rparr>"

definition createUserShare ::
  "oid \<Rightarrow> time \<Rightarrow> userShareData \<Rightarrow> db \<Rightarrow> (error + userShare) \<times> db" where
  "createUserShare newId now v d =
     (if \<not> createUserShareSchema v then (Inl ZodError, d)
      else
        let existing = findOne (\<lambda>s. us_fileId s = ObjectId (usd_fileId v) \<and>
                                    us_recipientId s = ObjectId (usd_recipientId v) \<and>
                                    us_isActive s) (userShares d);
            coll = (case existing of
                      None \<Rightarrow> userShares d
                    | Some e \<Rightarrow> updateOne (\<lambda>s. us_id s = us_id e) (deactivated now) (userShares d));
            expiresAt = (case usd_expirationMinutes v of
                           None \<Rightarrow> None
                         | Some m \<Rightarrow> Some (now + m * 60000));
            newUserShare = \<lparr>us_id = newId,
                            us_fileId = ObjectId (usd_fileId v),
                            us_ownerId = ObjectId (usd_ownerId v),
                            us_recipientId = ObjectId (usd_recipientId v),
                            us_expiresAt = expiresAt,
                            us_maxAccessCount = usd_maxAccessCount v,
                            us_accessCount = 0,
                            us_isActive = True,
                            us_createdAt = now,
                            us_updatedAt = now\<rparr>
        in if newId \<in> set (map us_id coll) then (Inl MongoError, d\<lparr>userShares := coll\<rparr>)
           else (Inr newUserShare, d\<lparr>userShares := insertOne newUserShare coll\<rparr>))"

text \<open>
  \<^verbatim>\<open>getShareByFileAndRecipient\<close>: \<^verbatim>\<open>findOne\<close> with \<^verbatim>\<open>sort: { createdAt: -1 }\<close>, the matching
  document created last (the earliest in natural order among equals).
\<close>

fun newest :: "userShare list \<Rightarrow> userShare option" where
  "newest [] = None"
| "newest (x # xs) =
     (case newest xs of
        None \<Rightarrow> Some x
      | Some y \<Rightarrow> if us_createdAt x < us_createdAt y then Some y else Some x)"

definition getShareByFileAndRecipient ::
  "string \<Rightarrow> string \<Rightarrow> db \<Rightarrow> error + userShare option" where
  "getShareByFileAndRecipient fileId recipientId d =
     (if \<not> objectIdSchema fileId \<or> \<not> objectIdSchema recipientId then Inl ZodError
      else Inr (newest (filter (\<lambda>s. us_fileId s = ObjectId fileId \<and>
                                      us_recipientId s = ObjectId recipientId \<and>
                                      us_isActive s) (userShares d))))"

text \<open>
  \<^verbatim>\<open>incrementUserShareAccess(shareId)\<close>: one \<^verbatim>\<open>updateOne\<close> by \<^verbatim>\<open>_id\<close> with
  \<^verbatim>\<open>$inc: { accessCount: 1 }\<close> and \<^verbatim>\<open>$set: { updatedAt: new Date() }\<close>, whatever the document
  holds. The result is the number of documents matched.
\<close>

definition accessed :: "time \<Rightarrow> userShare \<Rightarrow> userShare" where
  "accessed now s = s\<lparr>us_accessCount := us_accessCount s + 1, us_updatedAt := now\<rparr>"

definition incrementUserShareAccess :: "time \<Rightarrow> string \<Rightarrow> db \<Rightarrow> (error + nat) \<times> db" where
  "incrementUserShareAccess now shareId d =
     (if \<not> objectIdSchema shareId then (Inl ZodError, d)
      else (Inr (min 1 (matched (\<lambda>s. us_id s = ObjectId shareId) (userShares d))),
            d\<lparr>userShares :=
                 updateOne (\<lambda>s. us_id s = ObjectId shareId) (accessed now) (userShares d)\<rparr>))"

definition revokeAllUserSharesByFile :: "time \<Rightarrow> string \<Rightarrow> db \<Rightarrow> (error + nat) \<times> db" where
  "revokeAllUserSharesByFile now fileId d =
     (if \<not> objectIdSchema fileId then (Inl ZodError, d)
      else (Inr (matched (\<lambda>s. us_fileId s = ObjectId fileId \<and> us_isActive s) (userShares d)),
            d\<lparr>userShares :=
                 updateMany (\<lambda>s. us_fileId s = ObjectId fileId \<and> us_isActive s)
                   (deactivated now) (userShares d)\<rparr>))"

definition deactivateUserShare :: "time \<Rightarrow> string \<Rightarrow> db \<Rightarrow> (error + nat) \<times> db" where
  "deactivateUserShare now shareId d =
     (if \<not> objectIdSchema shareId then (Inl ZodError, d)
      else (Inr (min 1 (matched (\<lambda>s. us_id s = ObjectId shareId) (userShares d))),
            d\<lparr>userShares :=
                 updateOne (\<lambda>s. us_id s = ObjectId shareId) (deactivated now) (userShares d)\<rparr>))"

section \<open>files.js\<close>

definition getFileById :: "string \<Rightarrow> db \<Rightarrow> error + fileDoc option" where
  "getFileById fileId d =
     (if \<not> objectIdSchema fileId then Inl ZodError
      else Inr (findOne (\<lambda>f. f_id f = ObjectId fileId) (files d)))"

definition updateAccessStats :: "time \<Rightarrow> string \<Rightarrow> db \<Rightarrow> (error + nat) \<times> db" where
  "updateAccessStats now fileId d =
     (if \<not> objectIdSchema fileId then (Inl ZodError, d)
      else (Inr (min 1 (matched (\<lambda>f. f_id f = ObjectId fileId) (files d))),
            d\<lparr>files :=
                 updateOne (\<lambda>f. f_id f = ObjectId fileId)
                   (\<lambda>f. f\<lparr>f_accessCount := f_accessCount f + 1,
                           f_lastAccessedAt := now, f_updatedAt := now\<rparr>) (files d)\<rparr>))"

text \<open>
  \<^verbatim>\<open>deleteFile(fileId)\<close>: four calls to the store, one after the other, each awaited, none
  given a session. A call to the store can throw (the store is unavailable): \<open>fault\<close> is
  the position, from 0, of the call that throws, if one does; a call that throws changes
  nothing, and the calls before it have been applied.
\<close>

record deleteFileResult =
  dfr_file :: nat
  dfr_shareLinks :: nat
  dfr_userShares :: nat
  dfr_auditLogs :: nat

definition deleteFile :: "nat option \<Rightarrow> string \<Rightarrow> db \<Rightarrow> (error + deleteFileResult) \<times> db" where
  "deleteFile fault fileId d =
     (if \<not> objectIdSchema fileId then (Inl ZodError, d)
      else if fault = Some 0 then (Inl MongoError, d)
      else
        let d1 = d\<lparr>files := deleteOne (\<lambda>f. f_id f = ObjectId fileId) (files d)\<rparr> in
        if fault = Some 1 then (Inl MongoError, d1)
        else
          let d2 = d1\<lparr>shareLinks :=
                       deleteMany (\<lambda>s. sl_fileId s = ObjectId fileId) (shareLinks d1)\<rparr> in
          if fault = Some 2 then (Inl MongoError, d2)
          else
            let d3 = d2\<lparr>userShares :=
                         deleteMany (\<lambda>s. us_fileId s = ObjectId fileId) (userShares d2)\<rparr> in
            if fault = Some 3 then (Inl MongoError, d3)
            else
              (Inr \<lparr>dfr_file = min 1 (matched (\<lambda>f. f_id f = ObjectId fileId) (files d)),
                    dfr_shareLinks = matched (\<lambda>s. sl_fileId s = ObjectId fileId) (shareLinks d),
                    dfr_userShares = matched (\<lambda>s. us_fileId s = ObjectId fileId) (userShares d),
                    dfr_auditLogs =
                      matched (\<lambda>a. al_fileId a = Some (ObjectId fileId)) (auditLogs d)\<rparr>,
               d3\<lparr>auditLogs :=
                    deleteMany (\<lambda>a. al_fileId a = Some (ObjectId fileId)) (auditLogs d3)\<rparr>))"

section \<open>users.js\<close>

text \<open>
  \<^verbatim>\<open>deleteUserAccount(userId)\<close>. The callback given to \<^verbatim>\<open>session.withTransaction\<close> makes
  seven calls to the store, each with the session; \<open>fault\<close> is the position of the call
  that throws, if one does, position 7 being the commit. \<^verbatim>\<open>withTransaction\<close> belongs to
  the driver: when the callback or the commit throws, the transaction is aborted, the
  store is as it was before the transaction, and the error is thrown on; one run of the
  callback is modelled.
\<close>

record deletionCounts =
  dc_shareLinks :: nat
  dc_userSharesOwned :: nat
  dc_auditLogsOwnFiles :: nat
  dc_auditLogsAnonymized :: nat
  dc_files :: nat
  dc_user :: nat

definition anonymized :: "auditLog \<Rightarrow> auditLog" where
  "anonymized a = a\<lparr>al_userId := Null, al_username := Some ''[Deleted User]''\<rparr>"

definition deleteUserAccount_callback ::
  "nat option \<Rightarrow> oid \<Rightarrow> db \<Rightarrow> (error + deletionCounts) \<times> db" where
  "deleteUserAccount_callback fault userObjectId d =
     (if fault = Some 0 then (Inl MongoError, d)
      else
        let userFileIds = map f_id (filter (\<lambda>f. f_ownerId f = userObjectId) (files d)) in
        if fault = Some 1 then (Inl MongoError, d)
        else
          let d2 = d\<lparr>shareLinks :=
                      deleteMany (\<lambda>s. sl_ownerId s = userObjectId) (shareLinks d)\<rparr> in
          if fault = Some 2 then (Inl MongoError, d2)
          else
            let d3 = d2\<lparr>userShares :=
                         deleteMany (\<lambda>s. us_ownerId s = userObjectId) (userShares d2)\<rparr> in
            if fault = Some 3 then (Inl MongoError, d3)
            else
              let ownLogs = (\<lambda>a. case al_fileId a of None \<Rightarrow> False
                                   | Some i \<Rightarrow> i \<in> set userFileIds);
                  d5 = d3\<lparr>auditLogs := deleteMany ownLogs (auditLogs d3)\<rparr> in
              if fault = Some 4 then (Inl MongoError, d5)
              else
                let otherLogs = (\<lambda>a. al_userId a = Val userObjectId \<and>
                                      (case al_fileId a of None \<Rightarrow> True
                                       | Some i \<Rightarrow> i \<notin> set userFileIds));
                    d6 = d5\<lparr>auditLogs := updateMany otherLogs anonymized (auditLogs d5)\<rparr> in
                if fault = Some 5 then (Inl MongoError, d6)
                else
                  let d7 = d6\<lparr>files :=
                               deleteMany (\<lambda>f. f_ownerId f = userObjectId) (files d6)\<rparr> in
                  if fault = Some 6 then (Inl MongoError, d7)
                  else
                    (Inr \<lparr>dc_shareLinks =
                            matched (\<lambda>s. sl_ownerId s = userObjectId) (shareLinks d),
                          dc_userSharesOwned =
                            matched (\<lambda>s. us_ownerId s = userObjectId) (userShares d2),
                          dc_auditLogsOwnFiles = matched ownLogs (auditLogs d3),
                          dc_auditLogsAnonymized = matched otherLogs (auditLogs d5),
                          dc_files = matched (\<lambda>f. f_ownerId f = userObjectId) (files d6),
                          dc_user = min 1 (matched (\<lambda>u. u_id u = userObjectId) (users d7))\<rparr>,
                     d7\<lparr>users := deleteOne (\<lambda>u. u_id u = userObjectId) (users d7)\<rparr>))"

definition withTransaction ::
  "nat option \<Rightarrow> (db \<Rightarrow> (error + 'a) \<times> db) \<Rightarrow> db \<Rightarrow> (error + 'a) \<times> db" where
  "withTransaction fault callback d =
     (case callback d of
        (Inl e, d') \<Rightarrow> (Inl e, d)
      | (Inr r, d') \<Rightarrow> if fault = Some 7 then (Inl MongoError, d) else (Inr r, d'))"

definition deleteUserAccount ::
  "nat option \<Rightarrow> string \<Rightarrow> db \<Rightarrow> (error + deletionCounts) \<times> db" where
  "deleteUserAccount fault userId d =
     (if \<not> objectIdSchema userId then (Inl ZodError, d)
      else withTransaction fault (deleteUserAccount_callback fault (ObjectId userId)) d)"

section \<open>auditLogs.js\<close>

text \<open>
  \<^verbatim>\<open>createAuditLog(auditData)\<close>: \<^verbatim>\<open>createAuditLogSchema\<close> wants a file identifier that is null
  or an ObjectId and a user identifier that is absent or an ObjectId; the action is one
  of the enumeration by type. \<open>insertFails\<close> says that the store throws on the insert.
\<close>

record auditData =
  ad_fileId :: "string option"
  ad_action :: action
  ad_userId :: "string option"
  ad_username :: "string option"
  ad_ipAddress :: "string option"
  ad_location :: "string option"
  ad_details :: "(string \<times> string) list option"

definition createAuditLogSchema :: "auditData \<Rightarrow> bool" where
  "createAuditLogSchema v =
     ((case ad_fileId v of None \<Rightarrow> True | Some i \<Rightarrow> objectIdSchema i) \<and>
      (case ad_userId v of None \<Rightarrow> True | Some i \<Rightarrow> objectIdSchema i))"

definition createAuditLog ::
  "bool \<Rightarrow> time \<Rightarrow> auditData \<Rightarrow> db \<Rightarrow> (error + auditLog) \<times> db" where
  "createAuditLog insertFails now v d =
     (if \<not> createAuditLogSchema v then (Inl ZodError, d)
      else
        let newAuditLog = \<lparr>al_fileId = map_option ObjectId (ad_fileId v),
                           al_action = ad_action v,
                           al_userId = (case ad_userId v of None \<Rightarrow> Absent
                                        | Some i \<Rightarrow> Val (ObjectId i)),
                           al_username = ad_username v,
                           al_ipAddress = ad_ipAddress v,
                           al_location = ad_location v,
                           al_details = ad_details v,
                           al_timestamp = now\<rparr>
        in if insertFails then (Inl MongoError, d)
           else (Inr newAuditLog, d\<lparr>auditLogs := insertOne newAuditLog (auditLogs d)\<rparr>))"

section \<open>shareLinks.js\<close>

text \<open>
  Modelled from the spec: \<^verbatim>\<open>shareLinks.js\<close> is not among the sources; the routes call its
  \<^verbatim>\<open>getShareLinkByToken\<close>. A LinkShare is keyed by its unique token, and the lookup reads
  the store and changes nothing.
\<close>

definition getShareLinkByToken :: "string \<Rightarrow> db \<Rightarrow> shareLink option" where
  "getShareLinkByToken token d = findOne (\<lambda>s. sl_token s = token) (shareLinks d)"

text \<open>
  Modelled from the spec: \<^verbatim>\<open>validateShareLink\<close> of the missing \<^verbatim>\<open>shareLinks.js\<close>, the
  expiration policy evaluator of the spec's section 4.1 on the share of the token: the
  share is active, its expiry is absent or after now, its maximum count is absent or
  above its used count. No side effects.
\<close>

definition validateShareLink :: "time \<Rightarrow> string \<Rightarrow> db \<Rightarrow> bool" where
  "validateShareLink now token d =
     (case getShareLinkByToken token d of
        None \<Rightarrow> False
      | Some share \<Rightarrow>
          sl_isActive share \<and>
          (case sl_expiresAt share of None \<Rightarrow> True | Some e \<Rightarrow> now < e) \<and>
          (case sl_maxAccessCount share of None \<Rightarrow> True | Some m \<Rightarrow> sl_accessCount share < m))"

text \<open>
  Modelled from the spec: \<^verbatim>\<open>incrementShareAccess\<close> of the missing \<^verbatim>\<open>shareLinks.js\<close>, the
  step of the spec's section 4.2 that checks the remaining capacity and increments the
  usage counter as one conditional update (a compare-and-increment): the share of the
  token gets its used count raised by one and its \<^verbatim>\<open>updatedAt\<close> set when its maximum
  count is absent or above its used count, and nothing changes otherwise.
\<close>

definition incrementShareAccess :: "time \<Rightarrow> string \<Rightarrow> db \<Rightarrow> db" where
  "incrementShareAccess now token d =
     d\<lparr>shareLinks :=
         updateOne (\<lambda>s. sl_token s = token \<and>
                        (case sl_maxAccessCount s of None \<Rightarrow> True
                         | Some m \<Rightarrow> sl_accessCount s < m))
           (\<lambda>s. s\<lparr>sl_accessCount := sl_accessCount s + 1, sl_updatedAt := now\<rparr>)
           (shareLinks d)\<rparr>"

section \<open>Requests, responses and the server\<close>

record authUser =
  au_userId :: string
  au_username :: string

record shareBody =
  sb_fileId :: string
  sb_shareType :: string
  sb_recipientIdentifier :: "string option"
  sb_expirationMinutes :: "int option"
  sb_maxAccessCount :: "int option"

text \<open>
  What the handlers read of a request: \<^verbatim>\<open>req.user\<close> (set by the \<^verbatim>\<open>auth\<close> middleware from a
  verified token), the path parameters, the body of a share creation, the headers
  \<^verbatim>\<open>x-forwarded-for\<close>, \<^verbatim>\<open>x-real-ip\<close>, \<^verbatim>\<open>cf-ipcountry\<close> and the socket's address.
\<close>

record request =
  req_user :: "authUser option"
  req_params_fileId :: "string option"
  req_params_token :: "string option"
  req_body :: "shareBody option"
  req_forwardedFor :: "string option"
  req_realIp :: "string option"
  req_remoteAddress :: "string option"
  req_cfIpCountry :: "string option"

datatype body =
    ErrorBody string
  | ValidationFailed
  | FileDownload string string "int option option"
  | FileDeleted string deleteFileResult
  | ShareInfo string "string option" int string "int option" int "time option"
  | ShareDownload string string "int option"

record response =
  status :: nat
  body :: body

record locals =
  loc_fileId :: "string option"
  loc_isSharedFile :: bool

text \<open>
  The server: the database and the lines written with \<^verbatim>\<open>console.error\<close>, the latest last.
  The environment of a request: the object storage (the pre-signed URL it returns or
  the error it throws, whether its delete throws) and the faults of the store.
\<close>

record server =
  store :: db
  console :: "string list"

record env =
  env_getDownloadUrl :: "string \<Rightarrow> string \<Rightarrow> error + string"
  env_deleteFromS3Fails :: bool
  env_auditInsertFails :: bool
  env_deleteFileFault :: "nat option"

definition noLocals :: locals where
  "noLocals = \<lparr>loc_fileId = None, loc_isSharedFile = False\<rparr>"

definition err :: "nat \<Rightarrow> string \<Rightarrow> response" where
  "err code msg = \<lparr>status = code, body = ErrorBody msg\<rparr>"

text \<open>
  The \<^verbatim>\<open>catch\<close> block that ends each handler: a \<^verbatim>\<open>ZodError\<close> is answered with 400, anything
  else is written to the console and answered with 500 and the handler's message.
\<close>

definition caught :: "string \<Rightarrow> string \<Rightarrow> error \<Rightarrow> server \<Rightarrow> response \<times> server" where
  "caught logLine msg e sv =
     (if e = ZodError then (\<lparr>status = 400, body = ValidationFailed\<rparr>, sv)
      else (err 500 msg, sv\<lparr>console := console sv @ [logLine]\<rparr>))"

subsection \<open>auditLogger.js\<close>

text \<open>
  \<^verbatim>\<open>String.prototype.trim\<close> strips white space and line terminators. A character of a
  \<open>string\<close> here has a code below 256, and among those the ones stripped are the tab, the
  line feed, the vertical tab, the form feed, the carriage return, the space and the
  no-break space; the white space above U+00FF (U+FEFF, U+2028 and the like) is not in
  the type.
\<close>

definition isSpace :: "char \<Rightarrow> bool" where
  "isSpace c =
     (c \<in> set [CHR 0x09, CHR 0x0A, CHR 0x0B, CHR 0x0C, CHR 0x0D, CHR 0x20, CHR 0xA0])"

definition trim :: "string \<Rightarrow> string" where
  "trim s = rev (dropWhile isSpace (rev (dropWhile isSpace s)))"

text \<open>\<^verbatim>\<open>req.headers['x-forwarded-for']?.split(',')[0].trim()\<close>, when it is a non-empty string.\<close>

definition forwardedIp :: "request \<Rightarrow> string option" where
  "forwardedIp req =
     (case req_forwardedFor req of
        None \<Rightarrow> None
      | Some h \<Rightarrow> let ip = trim (takeWhile (\<lambda>c. c \<noteq> CHR '','') h)
                  in if ip = [] then None else Some ip)"

definition truthy :: "string option \<Rightarrow> string option" where
  "truthy v = (case v of None \<Rightarrow> None | Some s \<Rightarrow> if s = [] then None else Some s)"

fun firstTruthy :: "string option list \<Rightarrow> string option" where
  "firstTruthy [] = None"
| "firstTruthy (v # vs) = (case truthy v of None \<Rightarrow> firstTruthy vs | Some s \<Rightarrow> Some s)"

definition getClientIp :: "request \<Rightarrow> string" where
  "getClientIp req =
     (case firstTruthy [forwardedIp req, req_realIp req, req_remoteAddress req] of
        None \<Rightarrow> ''Unknown''
      | Some ip \<Rightarrow> ip)"

definition getLocation :: "request \<Rightarrow> string option" where
  "getLocation req = req_cfIpCountry req"

text \<open>
  \<^verbatim>\<open>auditLogger(action, detailsExtractor)\<close> replaces \<^verbatim>\<open>res.send\<close> and calls the handler. When
  the handler sends its response and the status is 2xx, the middleware looks for a file
  identifier in \<^verbatim>\<open>req.params\<close>, \<^verbatim>\<open>req.body\<close> and \<^verbatim>\<open>res.locals\<close> (\<^verbatim>\<open>req.file\<close> carries none) and
  starts \<^verbatim>\<open>createAuditLog\<close>, whose rejection goes to \<^verbatim>\<open>console.error\<close>; the response is sent
  whatever becomes of the audit entry. The server returned is the one after the promise
  has settled.
\<close>

definition auditLogger ::
  "action \<Rightarrow> (request \<Rightarrow> locals \<Rightarrow> (string \<times> string) list option) \<Rightarrow> env \<Rightarrow> time \<Rightarrow>
   (request \<Rightarrow> server \<Rightarrow> (response \<times> locals) \<times> server) \<Rightarrow>
   request \<Rightarrow> server \<Rightarrow> response \<times> server" where
  "auditLogger act detailsExtractor ev now handler req sv =
     (case handler req sv of
        ((res, loc), sv1) \<Rightarrow>
          if 200 \<le> status res \<and> status res < 300 then
            let fileId = firstTruthy [req_params_fileId req,
                                      map_option sb_fileId (req_body req), loc_fileId loc]
            in if fileId \<noteq> None \<or> act = EXPIRED_LINK_ATTEMPT then
                 (case createAuditLog (env_auditInsertFails ev) now
                         \<lparr>ad_fileId = fileId,
                          ad_action = act,
                          ad_userId = map_option au_userId (req_user req),
                          ad_username = map_option au_username (req_user req),
                          ad_ipAddress = Some (getClientIp req),
                          ad_location = getLocation req,
                          ad_details = detailsExtractor req loc\<rparr> (store sv1) of
                    (Inl e, d') \<Rightarrow>
                      (res, sv1\<lparr>store := d',
                                console := console sv1 @ [''Failed to create audit log:'']\<rparr>)
                  | (Inr a, d') \<Rightarrow> (res, sv1\<lparr>store := d'\<rparr>))
               else (res, sv1)
          else (res, sv1))"

section \<open>routes/files.js\<close>

text \<open>\<^verbatim>\<open>fileIdSchema.parse(req.params)\<close>\<close>

definition fileIdSchema :: "request \<Rightarrow> string option" where
  "fileIdSchema req =
     (case req_params_fileId req of
        None \<Rightarrow> None
      | Some fileId \<Rightarrow> if objectIdSchema fileId then Some fileId else None)"

text \<open>
  \<^verbatim>\<open>GET /api/files/download/:fileId\<close>. The handler's last steps, common to the owner and
  to a recipient: the pre-signed URL, the file's access statistics, the response.
\<close>

definition filesDownload_send ::
  "env \<Rightarrow> time \<Rightarrow> string \<Rightarrow> fileDoc \<Rightarrow> userShare option \<Rightarrow> locals \<Rightarrow> server \<Rightarrow>
   (response \<times> locals) \<times> server" where
  "filesDownload_send ev now fileId file userShare loc sv =
     (case env_getDownloadUrl ev (f_s3Key file) (f_filename file) of
        Inl e \<Rightarrow>
          (case caught ''Download error:'' ''Failed to generate download URL'' e sv of
             (r, sv') \<Rightarrow> ((r, loc), sv'))
      | Inr downloadUrl \<Rightarrow>
          (case updateAccessStats now fileId (store sv) of
             (Inl e, d') \<Rightarrow>
               (case caught ''Download error:'' ''Failed to generate download URL'' e
                       (sv\<lparr>store := d'\<rparr>) of
                  (r, sv') \<Rightarrow> ((r, loc), sv'))
           | (Inr n, d') \<Rightarrow>
               ((\<lparr>status = 200,
                  body = FileDownload downloadUrl (f_filename file)
                           (map_option
                              (\<lambda>s. map_option (\<lambda>m. m - us_accessCount s - 1) (us_maxAccessCount s))
                              userShare)\<rparr>,
                 loc\<lparr>loc_fileId := Some fileId\<rparr>),
                sv\<lparr>store := d'\<rparr>)))"

definition filesDownload ::
  "env \<Rightarrow> time \<Rightarrow> request \<Rightarrow> server \<Rightarrow> (response \<times> locals) \<times> server" where
  "filesDownload ev now req sv =
     (let thrown = (\<lambda>e sv'.
            case caught ''Download error:'' ''Failed to generate download URL'' e sv' of
              (r, sv'') \<Rightarrow> ((r, noLocals), sv''))
      in
      case fileIdSchema req of
        None \<Rightarrow> thrown ZodError sv
      | Some fileId \<Rightarrow>
          (case getFileById fileId (store sv) of
             Inl e \<Rightarrow> thrown e sv
           | Inr None \<Rightarrow> ((err 404 ''File not found'', noLocals), sv)
           | Inr (Some file) \<Rightarrow>
               (case req_user req of
                  None \<Rightarrow> thrown (Error ''TypeError'') sv
                | Some user \<Rightarrow>
                    if f_ownerId file = au_userId user
                    then filesDownload_send ev now fileId file None noLocals sv
                    else
                      (case getShareByFileAndRecipient fileId (au_userId user) (store sv) of
                         Inl e \<Rightarrow> thrown e sv
                       | Inr None \<Rightarrow> ((err 404 ''File not found'', noLocals), sv)
                       | Inr (Some userShare) \<Rightarrow>
                           (case validateUserShare now (us_id userShare) (store sv) of
                              (Inl e, d1) \<Rightarrow> thrown e (sv\<lparr>store := d1\<rparr>)
                            | (Inr False, d1) \<Rightarrow>
                                ((err 403 ''Share has expired or reached maximum accesses'',
                                  noLocals), sv\<lparr>store := d1\<rparr>)
                            | (Inr True, d1) \<Rightarrow>
                                (case incrementUserShareAccess now (us_id userShare) d1 of
                                   (Inl e, d2) \<Rightarrow> thrown e (sv\<lparr>store := d2\<rparr>)
                                 | (Inr n, d2) \<Rightarrow>
                                     filesDownload_send ev now fileId file (Some userShare)
                                       (noLocals\<lparr>loc_isSharedFile := True\<rparr>)
                                       (sv\<lparr>store := d2\<rparr>)))))))"

definition filesDownload_route :: "env \<Rightarrow> time \<Rightarrow> request \<Rightarrow> server \<Rightarrow> response \<times> server" where
  "filesDownload_route ev now =
     auditLogger DOWNLOAD
       (\<lambda>req loc. Some [(''via'', if loc_isSharedFile loc then ''user_share'' else ''owner'')])
       ev now (filesDownload ev now)"

text \<open>
  \<^verbatim>\<open>DELETE /api/files/:fileId\<close>: the lookup and the ownership test, \<^verbatim>\<open>deleteFile\<close>, then
  \<^verbatim>\<open>deleteFromS3\<close>.
\<close>

definition filesDelete ::
  "env \<Rightarrow> request \<Rightarrow> server \<Rightarrow> (response \<times> locals) \<times> server" where
  "filesDelete ev req sv =
     (let thrown = (\<lambda>e sv'.
            case caught ''Delete error:'' ''Failed to delete file'' e sv' of
              (r, sv'') \<Rightarrow> ((r, noLocals), sv''))
      in
      case fileIdSchema req of
        None \<Rightarrow> thrown ZodError sv
      | Some fileId \<Rightarrow>
          (case getFileById fileId (store sv) of
             Inl e \<Rightarrow> thrown e sv
           | Inr None \<Rightarrow> ((err 404 ''File not found'', noLocals), sv)
           | Inr (Some file) \<Rightarrow>
               (case req_user req of
                  None \<Rightarrow> thrown (Error ''TypeError'') sv
                | Some user \<Rightarrow>
                    if f_ownerId file \<noteq> au_userId user
                    then ((err 404 ''File not found'', noLocals), sv)
                    else
                      (case deleteFile (env_deleteFileFault ev) fileId (store sv) of
                         (Inl e, d') \<Rightarrow> thrown e (sv\<lparr>store := d'\<rparr>)
                       | (Inr deleteResult, d') \<Rightarrow>
                           if env_deleteFromS3Fails ev then thrown S3Error (sv\<lparr>store := d'\<rparr>)
                           else ((\<lparr>status = 200, body = FileDeleted fileId deleteResult\<rparr>,
                                  noLocals), sv\<lparr>store := d'\<rparr>)))))"

definition filesDelete_route :: "env \<Rightarrow> time \<Rightarrow> request \<Rightarrow> server \<Rightarrow> response \<times> server" where
  "filesDelete_route ev now = auditLogger DELETE (\<lambda>req loc. None) ev now (filesDelete ev)"

section \<open>routes/share.js\<close>

text \<open>
  \<^verbatim>\<open>createShareSchema\<close>, and the first lines of \<^verbatim>\<open>POST /api/share/create\<close>: the body is
  parsed, the file is looked up and its owner compared with the requester. \<open>Inl\<close> is the
  response with which the handler returns, \<open>Inr\<close> the file with which it goes on.
\<close>

definition createShareSchema :: "shareBody \<Rightarrow> bool" where
  "createShareSchema v =
     (objectIdSchema (sb_fileId v) \<and>
      (sb_shareType v = ''user'' \<or> sb_shareType v = ''link'') \<and>
      (case sb_expirationMinutes v of None \<Rightarrow> True | Some m \<Rightarrow> 10 \<le> m \<and> m \<le> 525960) \<and>
      (case sb_maxAccessCount v of None \<Rightarrow> True | Some c \<Rightarrow> positiveIntSchema c) \<and>
      (sb_expirationMinutes v \<noteq> None \<or> sb_maxAccessCount v \<noteq> None) \<and>
      (if sb_shareType v = ''user''
       then (case sb_recipientIdentifier v of None \<Rightarrow> False | Some r \<Rightarrow> trim r \<noteq> [])
       else True))"

definition shareCreate_lookup :: "request \<Rightarrow> server \<Rightarrow> (response \<times> server) + fileDoc" where
  "shareCreate_lookup req sv =
     (case req_body req of
        None \<Rightarrow> Inl (caught ''Share creation error:'' ''Failed to create share'' ZodError sv)
      | Some v \<Rightarrow>
          if \<not> createShareSchema v
          then Inl (caught ''Share creation error:'' ''Failed to create share'' ZodError sv)
          else
            (case getFileById (sb_fileId v) (store sv) of
               Inl e \<Rightarrow> Inl (caught ''Share creation error:'' ''Failed to create share'' e sv)
             | Inr None \<Rightarrow> Inl (err 404 ''File not found'', sv)
             | Inr (Some file) \<Rightarrow>
                 (case req_user req of
                    None \<Rightarrow> Inl (caught ''Share creation error:'' ''Failed to create share''
                                   (Error ''TypeError'') sv)
                  | Some user \<Rightarrow>
                      if f_ownerId file \<noteq> au_userId user
                      then Inl (err 404 ''File not found'', sv)
                      else Inr file)))"

text \<open>
  The first lines of \<^verbatim>\<open>GET /api/share/file/:fileId/active-shares\<close>: \<^verbatim>\<open>ObjectId.isValid\<close> on
  the parameter, the lookup, the ownership test.
\<close>

definition activeShares_lookup :: "request \<Rightarrow> server \<Rightarrow> (response \<times> server) + fileDoc" where
  "activeShares_lookup req sv =
     (case req_params_fileId req of
        None \<Rightarrow> Inl (err 400 ''Invalid file ID format'', sv)
      | Some fileId \<Rightarrow>
          if \<not> ObjectId_isValid fileId then Inl (err 400 ''Invalid file ID format'', sv)
          else
            (case getFileById fileId (store sv) of
               Inl e \<Rightarrow> Inl (caught ''Get active shares error:''
                               ''Failed to retrieve active shares'' e sv)
             | Inr None \<Rightarrow> Inl (err 404 ''File not found'', sv)
             | Inr (Some file) \<Rightarrow>
                 (case req_user req of
                    None \<Rightarrow> Inl (caught ''Get active shares error:''
                                   ''Failed to retrieve active shares'' (Error ''TypeError'') sv)
                  | Some user \<Rightarrow>
                      if f_ownerId file \<noteq> au_userId user
                      then Inl (err 403 ''Unauthorized: You do not own this file'', sv)
                      else Inr file)))"

text \<open>
  \<^verbatim>\<open>shareTokenSchema\<close>: 64 characters, each of \<^verbatim>\<open>[a-f0-9]\<close>; and the address the handlers of
  the public routes put in their audit entries,
  \<^verbatim>\<open>req.headers['x-forwarded-for']?.split(',')[0].trim() || req.socket.remoteAddress\<close>.
\<close>

definition shareTokenSchema :: "request \<Rightarrow> string option" where
  "shareTokenSchema req =
     (case req_params_token req of
        None \<Rightarrow> None
      | Some token \<Rightarrow>
          if length token = 64 \<and> list_all (\<lambda>c. c \<in> set ''abcdef0123456789'') token
          then Some token else None)"

definition routeIp :: "request \<Rightarrow> string option" where
  "routeIp req = (case forwardedIp req of None \<Rightarrow> req_remoteAddress req | Some ip \<Rightarrow> Some ip)"

definition expiredAttempt :: "string \<Rightarrow> string \<Rightarrow> request \<Rightarrow> db \<Rightarrow> auditData" where
  "expiredAttempt token reason req d =
     \<lparr>ad_fileId = truthy (map_option sl_fileId (getShareLinkByToken token d)),
      ad_action = EXPIRED_LINK_ATTEMPT,
      ad_userId = None,
      ad_username = None,
      ad_ipAddress = routeIp req,
      ad_location = req_cfIpCountry req,
      ad_details = Some [(''token'', token), (''reason'', reason)]\<rparr>"

text \<open>
  \<^verbatim>\<open>GET /api/share/:token\<close>: the token is validated; a share that is not valid is logged
  as an expired link attempt and answered with 403; otherwise the share and its file are
  read and described.
\<close>

definition shareView :: "env \<Rightarrow> time \<Rightarrow> request \<Rightarrow> server \<Rightarrow> response \<times> server" where
  "shareView ev now req sv =
     (let thrown = caught ''Share access error:'' ''Failed to access shared file'' in
      case shareTokenSchema req of
        None \<Rightarrow> thrown ZodError sv
      | Some token \<Rightarrow>
          if \<not> validateShareLink now token (store sv) then
            (case createAuditLog (env_auditInsertFails ev) now
                    (expiredAttempt token ''expired_or_max_access_reached'' req (store sv))
                    (store sv) of
               (Inl e, d') \<Rightarrow> thrown e (sv\<lparr>store := d'\<rparr>)
             | (Inr a, d') \<Rightarrow>
                 (err 403 ''This share link has expired or reached maximum accesses'',
                  sv\<lparr>store := d'\<rparr>))
          else
            (case getShareLinkByToken token (store sv) of
               None \<Rightarrow> thrown (Error ''TypeError'') sv
             | Some shareLink \<Rightarrow>
                 (case getFileById (sl_fileId shareLink) (store sv) of
                    Inl e \<Rightarrow> thrown e sv
                  | Inr None \<Rightarrow> (err 404 ''File not found'', sv)
                  | Inr (Some file) \<Rightarrow>
                      (\<lparr>status = 200,
                        body = ShareInfo (f_filename file) (f_description file) (f_size file)
                                 (f_mimetype file) (sl_maxAccessCount shareLink)
                                 (sl_accessCount shareLink) (sl_expiresAt shareLink)\<rparr>,
                       sv))))"

text \<open>
  \<^verbatim>\<open>POST /api/share/:token/download\<close>: as above up to the file; then the pre-signed URL,
  \<^verbatim>\<open>incrementShareAccess\<close>, \<^verbatim>\<open>updateAccessStats\<close> and the audit entry of the download, each
  awaited inside the handler's \<^verbatim>\<open>try\<close>, and the response.
\<close>

definition shareDownload :: "env \<Rightarrow> time \<Rightarrow> request \<Rightarrow> server \<Rightarrow> response \<times> server" where
  "shareDownload ev now req sv =
     (let thrown = caught ''Share download error:'' ''Failed to download shared file'' in
      case shareTokenSchema req of
        None \<Rightarrow> thrown ZodError sv
      | Some token \<Rightarrow>
          if \<not> validateShareLink now token (store sv) then
            (case createAuditLog (env_auditInsertFails ev) now
                    (expiredAttempt token ''download_attempt_after_expiry'' req (store sv))
                    (store sv) of
               (Inl e, d') \<Rightarrow> thrown e (sv\<lparr>store := d'\<rparr>)
             | (Inr a, d') \<Rightarrow>
                 (err 403 ''This share link has expired or reached maximum accesses'',
                  sv\<lparr>store := d'\<rparr>))
          else
            (case getShareLinkByToken token (store sv) of
               None \<Rightarrow> thrown (Error ''TypeError'') sv
             | Some shareLink \<Rightarrow>
                 (case getFileById (sl_fileId shareLink) (store sv) of
                    Inl e \<Rightarrow> thrown e sv
                  | Inr None \<Rightarrow> (err 404 ''File not found'', sv)
                  | Inr (Some file) \<Rightarrow>
                      (case env_getDownloadUrl ev (f_s3Key file) (f_filename file) of
                         Inl e \<Rightarrow> thrown e sv
                       | Inr downloadUrl \<Rightarrow>
                           (let d1 = incrementShareAccess now token (store sv) in
                            case updateAccessStats now (sl_fileId shareLink) d1 of
                              (Inl e, d2) \<Rightarrow> thrown e (sv\<lparr>store := d2\<rparr>)
                            | (Inr n, d2) \<Rightarrow>
                                (case createAuditLog (env_auditInsertFails ev) now
                                        \<lparr>ad_fileId = Some (f_id file),
                                         ad_action = DOWNLOAD,
                                         ad_userId = None,
                                         ad_username = None,
                                         ad_ipAddress = routeIp req,
                                         ad_location = req_cfIpCountry req,
                                         ad_details = Some [(''via'', ''public_share_link''),
                                                            (''token'', token)]\<rparr> d2 of
                                   (Inl e, d3) \<Rightarrow> thrown e (sv\<lparr>store := d3\<rparr>)
                                 | (Inr a, d3) \<Rightarrow>
                                     (\<lparr>status = 200,
                                       body = ShareDownload downloadUrl (f_filename file)
                                                (map_option
                                                   (\<lambda>m. m - sl_accessCount shareLink - 1)
                                                   (sl_maxAccessCount shareLink))\<rparr>,
                                      sv\<lparr>store := d3\<rparr>)))))))"

section \<open>Consumption attempts that overlap\<close>

text \<open>
  A recipient's download consumes a user share in two awaited calls, one after the other
  (\<^verbatim>\<open>validateUserShare\<close>, then \<^verbatim>\<open>incrementUserShareAccess\<close>), and between the two the server
  is free to run the steps of other requests. An attempt is at its start, has been
  validated, has been granted (the counter was incremented for it), has been rejected
  (the 403 of the handler) or has failed with an exception. \<open>attempt_step\<close> runs the next
  awaited call of one attempt; a schedule says which attempt moves next, and when.
\<close>

datatype phase = Start | Validated | Granted | Rejected | Failed

definition attempt_step :: "time \<Rightarrow> string \<Rightarrow> phase \<Rightarrow> db \<Rightarrow> phase \<times> db" where
  "attempt_step now shareId ph d =
     (case ph of
        Start \<Rightarrow>
          (case validateUserShare now shareId d of
             (Inl e, d') \<Rightarrow> (Failed, d')
           | (Inr isValid, d') \<Rightarrow> (if isValid then Validated else Rejected, d'))
      | Validated \<Rightarrow>
          (case incrementUserShareAccess now shareId d of
             (Inl e, d') \<Rightarrow> (Failed, d')
           | (Inr n, d') \<Rightarrow> (Granted, d'))
      | Granted \<Rightarrow> (Granted, d)
      | Rejected \<Rightarrow> (Rejected, d)
      | Failed \<Rightarrow> (Failed, d))"

fun interleave :: "(nat \<times> time) list \<Rightarrow> string \<Rightarrow> phase list \<times> db \<Rightarrow> phase list \<times> db" where
  "interleave [] shareId st = st"
| "interleave ((i, now) # sched) shareId (phs, d) =
     (if i < length phs
      then (case attempt_step now shareId (phs ! i) d of
              (ph, d') \<Rightarrow> interleave sched shareId (phs[i := ph], d'))
      else interleave sched shareId (phs, d))"

text \<open>
  An attempt that runs alone makes its two steps back to back; \<open>consumeAll\<close> runs one such
  attempt after the other, one for each instant of the list.
\<close>

definition tryConsume :: "time \<Rightarrow> string \<Rightarrow> db \<Rightarrow> phase \<times> db" where
  "tryConsume now shareId d =
     (case attempt_step now shareId Start d of (ph, d') \<Rightarrow> attempt_step now shareId ph d')"

fun consumeAll :: "time list \<Rightarrow> string \<Rightarrow> db \<Rightarrow> phase list \<times> db" where
  "consumeAll [] shareId d = ([], d)"
| "consumeAll (now # ts) shareId d =
     (case tryConsume now shareId d of
        (ph, d') \<Rightarrow> (case consumeAll ts shareId d' of (phs, d'') \<Rightarrow> (ph # phs, d'')))"

definition grants :: "phase list \<Rightarrow> nat" where
  "grants phs = length (filter (\<lambda>ph. ph = Granted) phs)"

section \<open>Creations that overlap\<close>

text \<open>
  \<^verbatim>\<open>createUserShare\<close> awaits three calls to the store, the \<^verbatim>\<open>findOne\<close> of the active share of
  the pair, the \<^verbatim>\<open>updateOne\<close> that deactivates it and the \<^verbatim>\<open>insertOne\<close> of the new share, and
  between two of them the server is free to run the steps of other requests. A creation
  has yet to parse and look, has found the active share or none, has deactivated what it
  found, has created its share, or has thrown. \<open>creation_step\<close> runs the next awaited call
  of one creation; \<open>overlap\<close> runs the creations of a list, each with the \<^verbatim>\<open>_id\<close> the driver
  generates for it, its instant and its data, in the order of a schedule.
\<close>

datatype creation =
    Parsing | Found "userShare option" | Deactivated | Created userShare | Thrown error

definition creation_step ::
  "oid \<Rightarrow> time \<Rightarrow> userShareData \<Rightarrow> creation \<Rightarrow> db \<Rightarrow> creation \<times> db" where
  "creation_step newId now v c d =
     (case c of
        Parsing \<Rightarrow>
          if \<not> createUserShareSchema v then (Thrown ZodError, d)
          else (Found (findOne (\<lambda>s. us_fileId s = ObjectId (usd_fileId v) \<and>
                                     us_recipientId s = ObjectId (usd_recipientId v) \<and>
                                     us_isActive s) (userShares d)), d)
      | Found existing \<Rightarrow>
          (Deactivated,
           d\<lparr>userShares :=
               (case existing of
                  None \<Rightarrow> userShares d
                | Some e \<Rightarrow> updateOne (\<lambda>s. us_id s = us_id e) (deactivated now)
                             (userShares d))\<rparr>)
      | Deactivated \<Rightarrow>
          (let newUserShare = \<lparr>us_id = newId,
                               us_fileId = ObjectId (usd_fileId v),
                               us_ownerId = ObjectId (usd_ownerId v),
                               us_recipientId = ObjectId (usd_recipientId v),
                               us_expiresAt = (case usd_expirationMinutes v of
                                                 None \<Rightarrow> None
                                               | Some m \<Rightarrow> Some (now + m * 60000)),
                               us_maxAccessCount = usd_maxAccessCount v,
                               us_accessCount = 0,
                               us_isActive = True,
                               us_createdAt = now,
                               us_updatedAt = now\<rparr>
           in if newId \<in> set (map us_id (userShares d)) then (Thrown MongoError, d)
              else (Created newUserShare,
                    d\<lparr>userShares := insertOne newUserShare (userShares d)\<rparr>))
      | Created s \<Rightarrow> (Created s, d)
      | Thrown e \<Rightarrow> (Thrown e, d))"

fun overlap ::
  "nat list \<Rightarrow> (oid \<times> time \<times> userShareData) list \<Rightarrow> creation list \<times> db \<Rightarrow>
   creation list \<times> db" where
  "overlap [] reqs st = st"
| "overlap (i # sched) reqs (cs, d) =
     (if i < length cs \<and> i < length reqs
      then (case reqs ! i of
              (newId, now, v) \<Rightarrow>
                (case creation_step newId now v (cs ! i) d of
                   (c, d') \<Rightarrow> overlap sched reqs (cs[i := c], d')))
      else overlap sched reqs (cs, d))"

section \<open>Outcomes, and a small database\<close>

definition succeeds :: "(error + 'a) \<times> 's \<Rightarrow> bool" where
  "succeeds r = (case fst r of Inl e \<Rightarrow> False | Inr v \<Rightarrow> True)"

text \<open>
  Two users, a file of each, a share of each with the other, a public link to the first
  file, and four audit entries: each owner's upload and each user's download of the
  other's file.
\<close>

definition alice :: string where "alice = ''aaaaaaaaaaaaaaaaaaaaaaaa''"
definition bob :: string where "bob = ''bbbbbbbbbbbbbbbbbbbbbbbb''"
definition fileA :: string where "fileA = ''0123456789abcdef01234567''"
definition fileB :: string where "fileB = ''fedcba9876543210fedcba98''"

definition docA :: fileDoc where
  "docA = \<lparr>f_id = fileA, f_filename = ''a.pdf'', f_description = None, f_category = ''Work'',
           f_size = 10, f_mimetype = ''application/pdf'', f_s3Key = ''alice/a.pdf'',
           f_ownerId = alice, f_accessCount = 0, f_lastAccessedAt = 0, f_updatedAt = 0\<rparr>"

definition docB :: fileDoc where
  "docB = \<lparr>f_id = fileB, f_filename = ''b.txt'', f_description = Some ''notes'',
           f_category = ''Personal'', f_size = 20, f_mimetype = ''text/plain'',
           f_s3Key = ''bob/b.txt'', f_ownerId = bob, f_accessCount = 0,
           f_lastAccessedAt = 0, f_updatedAt = 0\<rparr>"

definition shareAB :: userShare where
  "shareAB = \<lparr>us_id = ''111111111111111111111111'', us_fileId = fileA, us_ownerId = alice,
              us_recipientId = bob, us_expiresAt = None, us_maxAccessCount = Some 1,
              us_accessCount = 0, us_isActive = True, us_createdAt = 0, us_updatedAt = 0\<rparr>"

definition shareBA :: userShare where
  "shareBA = \<lparr>us_id = ''222222222222222222222222'', us_fileId = fileB, us_ownerId = bob,
              us_recipientId = alice, us_expiresAt = Some 5000, us_maxAccessCount = None,
              us_accessCount = 0, us_isActive = True, us_createdAt = 0, us_updatedAt = 0\<rparr>"

definition tokenA :: string where
  "tokenA = ''aaaaaaaaaaaaaaaaaaaaaaaaaaaaaaaaaaaaaaaaaaaaaaaaaaaaaaaaaaaaaaaa''"

definition linkA :: shareLink where
  "linkA = \<lparr>sl_token = tokenA, sl_fileId = fileA, sl_ownerId = alice, sl_expiresAt = None,
            sl_maxAccessCount = Some 3, sl_accessCount = 0, sl_isActive = True,
            sl_createdAt = 0, sl_updatedAt = 0\<rparr>"

definition logEntry :: "string \<Rightarrow> action \<Rightarrow> string \<Rightarrow> string \<Rightarrow> auditLog" where
  "logEntry fileId act userId name =
     \<lparr>al_fileId = Some fileId, al_action = act, al_userId = Val userId,
      al_username = Some name, al_ipAddress = None, al_location = None, al_details = None,
      al_timestamp = 0\<rparr>"

definition exampleDb :: db where
  "exampleDb =
     \<lparr>users = [\<lparr>u_id = alice, u_username = ''alice'', u_email = ''a@x.io'', u_password = ''h1''\<rparr>,
               \<lparr>u_id = bob, u_username = ''bob'', u_email = ''b@x.io'', u_password = ''h2''\<rparr>],
      files = [docA, docB],
      shareLinks = [linkA],
      userShares = [shareAB, shareBA],
      auditLogs = [logEntry fileA UPLOAD alice ''alice'', logEntry fileB DOWNLOAD alice ''alice'',
                   logEntry fileA DOWNLOAD bob ''bob'', logEntry fileB UPLOAD bob ''bob'']\<rparr>"

text \<open>
  A request of a user for a file, a request with a token, and an environment in which
  nothing fails.
\<close>

definition fileRequest :: "string \<Rightarrow> string \<Rightarrow> string \<Rightarrow> request" where
  "fileRequest userId name fileId =
     \<lparr>req_user = Some \<lparr>au_userId = userId, au_username = name\<rparr>,
      req_params_fileId = Some fileId, req_params_token = None, req_body = None,
      req_forwardedFor = None, req_realIp = None, req_remoteAddress = Some ''10.0.0.1'',
      req_cfIpCountry = None\<rparr>"

definition tokenRequest :: "string \<Rightarrow> request" where
  "tokenRequest token =
     \<lparr>req_user = None, req_params_fileId = None, req_params_token = Some token,
      req_body = None, req_forwardedFor = None, req_realIp = None,
      req_remoteAddress = Some ''10.0.0.2'', req_cfIpCountry = None\<rparr>"

definition shareRequestAB :: userShareData where
  "shareRequestAB = \<lparr>usd_fileId = fileA, usd_ownerId = alice, usd_recipientId = bob,
                     usd_expirationMinutes = Some 60, usd_maxAccessCount = None\<rparr>"


definition quiet :: env where
  "quiet = \<lparr>env_getDownloadUrl = (\<lambda>key name. Inr (''https://s3/'' @ key)),
            env_deleteFromS3Fails = False, env_auditInsertFails = False,
            env_deleteFileFault = None\<rparr>"

text \<open>
  The server after Alice has deleted her file through the route, and the audit entry the
  middleware of the route has written for that deletion.
\<close>

definition deleteEntry :: auditLog where
  "deleteEntry =
     \<lparr>al_fileId = Some fileA, al_action = DELETE, al_userId = Val alice,
      al_username = Some ''alice'', al_ipAddress = Some ''10.0.0.1'', al_location = None,
      al_details = None, al_timestamp = 7\<rparr>"

definition afterFileDeleted :: server where
  "afterFileDeleted =
     snd (filesDelete_route quiet 7 (fileRequest alice ''alice'' fileA)
            \<lparr>store = exampleDb, console = []\<rparr>)"

text \<open>
  Bob asks for Alice's file, which she has shared with him for one access; the server
  before his first download and after it.
\<close>

definition bobWantsA :: request where
  "bobWantsA = fileRequest bob ''bob'' fileA"

definition server0 :: server where
  "server0 = \<lparr>store = exampleDb, console = []\<rparr>"

definition afterDownload :: server where
  "afterDownload = snd (filesDownload_route quiet 10 bobWantsA server0)"

text \<open>
  The identifier of no file, an environment in which the insert of an audit entry
  throws, the body of a request to share a file by link, and the public link after one
  download at instant 10.
\<close>

definition missingFile :: string where "missingFile = ''000000000000000000000000''"

definition auditDown :: env where
  "auditDown = quiet\<lparr>env_auditInsertFails := True\<rparr>"

definition shareBodyFor :: "string \<Rightarrow> shareBody" where
  "shareBodyFor fileId =
     \<lparr>sb_fileId = fileId, sb_shareType = ''link'', sb_recipientIdentifier = None,
      sb_expirationMinutes = Some 60, sb_maxAccessCount = None\<rparr>"

definition consumedLink :: shareLink where
  "consumedLink = linkA\<lparr>sl_accessCount := 1, sl_updatedAt := 10\<rparr>"

text \<open>
  Alice shares her file with Bob twice, and the two creations overlap: each makes its
  first call before the other makes its second.
\<close>

definition raced :: db where
  "raced =
     snd (overlap [0, 1, 0, 1, 0, 1]
            [(''333333333333333333333333'', 200, shareRequestAB),
             (''444444444444444444444444'', 201, shareRequestAB)]
            ([Parsing, Parsing], exampleDb))"

section \<open>Predicates of the properties\<close>

text \<open>
  An audit entry in which user \<open>u\<close> is the actor on a file that another user owns, and an
  audit entry that refers to a file \<open>u\<close> owns, both read against the files of \<open>d\<close>.
\<close>

definition actorOnOthersFile :: "oid \<Rightarrow> db \<Rightarrow> auditLog \<Rightarrow> bool" where
  "actorOnOthersFile u d a =
     (al_userId a = Val u \<and>
      list_ex (\<lambda>f. al_fileId a = Some (f_id f) \<and> f_ownerId f \<noteq> u) (files d))"

definition onOwnFile :: "oid \<Rightarrow> db \<Rightarrow> auditLog \<Rightarrow> bool" where
  "onOwnFile u d a =
     list_ex (\<lambda>f. al_fileId a = Some (f_id f) \<and> f_ownerId f = u) (files d)"

text \<open>
  The active user shares of a file for a recipient; and the invariant of the collection
  of user shares: no two documents have the same \<^verbatim>\<open>_id\<close>, and no two active ones have the
  same file and recipient.
\<close>

definition activeFor :: "oid \<Rightarrow> oid \<Rightarrow> userShare list \<Rightarrow> userShare list" where
  "activeFor f r coll =
     filter (\<lambda>s. us_fileId s = f \<and> us_recipientId s = r \<and> us_isActive s) coll"

definition sharesInv :: "userShare list \<Rightarrow> bool" where
  "sharesInv coll =
     (distinct (map us_id coll) \<and>
      distinct (map (\<lambda>s. (us_fileId s, us_recipientId s)) (filter us_isActive coll)))"

text \<open>
  The databases reached when the calls of the data layer run in turn, each one finished
  before the next begins: from a database without user shares, by the functions of the
  data layer that write user shares, whatever they return, and by anything that leaves
  the user shares as they are. The databases that calls which overlap leave are not all
  among them (see \<open>overlap\<close> above).
\<close>

inductive reachedInTurn :: "db \<Rightarrow> bool" where
  no_shares: "userShares d = [] \<Longrightarrow> reachedInTurn d"
| after_create: "reachedInTurn d \<Longrightarrow> reachedInTurn (snd (createUserShare newId now v d))"
| after_increment: "reachedInTurn d \<Longrightarrow> reachedInTurn (snd (incrementUserShareAccess now shareId d))"
| after_revokeAll: "reachedInTurn d \<Longrightarrow> reachedInTurn (snd (revokeAllUserSharesByFile now fileId d))"
| after_deactivate: "reachedInTurn d \<Longrightarrow> reachedInTurn (snd (deactivateUserShare now shareId d))"
| after_deleteFile: "reachedInTurn d \<Longrightarrow> reachedInTurn (snd (deleteFile fault fileId d))"
| after_deleteAccount: "reachedInTurn d \<Longrightarrow> reachedInTurn (snd (deleteUserAccount fault userId d))"
| same_shares: "reachedInTurn d \<Longrightarrow> userShares d' = userShares d \<Longrightarrow> reachedInTurn d'"

section \<open>The expiration policy\<close>

lemma validateUserShare_db: "snd (validateUserShare now shareId d) = d"
  by (simp add: validateUserShare_def split: option.splits)

lemma validateUserShare_verdict:
  "(fst (validateUserShare now shareId d) = Inr True) =
     (objectIdSchema shareId \<and>
      (\<exists>share. findOne (\<lambda>s. us_id s = ObjectId shareId) (userShares d) = Some share \<and>
         us_isActive share \<and>
         (case us_expiresAt share of None \<Rightarrow> True | Some e \<Rightarrow> now < e) \<and>
         (case us_maxAccessCount share of None \<Rightarrow> True | Some m \<Rightarrow> us_accessCount share < m)))"
  by (auto simp add: validateUserShare_def split: option.splits)

text \<open>
  Claim C3. \<^verbatim>\<open>validateUserShare\<close> returns true exactly when the identifier is well formed
  and the share it denotes exists, is active, has no expiry or an expiry strictly after
  now, and has no maximum access count or one strictly greater than its access count.
  The call leaves the database as it found it, so any number of calls with the same
  share and time leave it unchanged and give the same verdict.
\<close>

theorem validateUserShare_policy:
  "(fst (validateUserShare now shareId d) = Inr True) =
     (objectIdSchema shareId \<and>
      (\<exists>share. findOne (\<lambda>s. us_id s = ObjectId shareId) (userShares d) = Some share \<and>
         us_isActive share \<and>
         (case us_expiresAt share of None \<Rightarrow> True | Some e \<Rightarrow> now < e) \<and>
         (case us_maxAccessCount share of None \<Rightarrow> True | Some m \<Rightarrow> us_accessCount share < m)))
   \<and> snd (validateUserShare now shareId d) = d
   \<and> ((\<lambda>s. snd (validateUserShare now shareId s)) ^^ n) d = d
   \<and> validateUserShare now shareId (((\<lambda>s. snd (validateUserShare now shareId s)) ^^ n) d)
       = validateUserShare now shareId d"
proof -
  have again: "((\<lambda>s. snd (validateUserShare now shareId s)) ^^ n) d = d"
    by (induction n) (simp_all add: validateUserShare_db)
  with validateUserShare_verdict [of now shareId d] show ?thesis
    by (simp add: validateUserShare_db)
qed

theorem validateUserShare_policy_witness:
  "fst (validateUserShare 1000 (us_id shareBA) exampleDb) = Inr True \<and>
   fst (validateUserShare 5000 (us_id shareBA) exampleDb) = Inr False \<and>
   snd (validateUserShare 1000 (us_id shareBA) exampleDb) = exampleDb"
proof -
  have "fst (validateUserShare 1000 (us_id shareBA) exampleDb) = Inr True" by code_simp
  moreover have "fst (validateUserShare 5000 (us_id shareBA) exampleDb) = Inr False"
    by code_simp
  ultimately show ?thesis
    using validateUserShare_policy [of 1000 "us_id shareBA" exampleDb 1] by simp
qed

section \<open>Facts about the store's operations\<close>

lemma updateOne_by_key:
  "distinct (map k xs) \<Longrightarrow>
     updateOne (\<lambda>s. k s = c) g xs = map (\<lambda>s. if k s = c then g s else s) xs"
proof (induction xs)
  case Nil
  then show ?case by simp
next
  case (Cons x xs)
  show ?case
  proof (cases "k x = c")
    case True
    from Cons.prems have "k x \<notin> k ` set xs" by simp
    with True have "\<forall>y\<in>set xs. k y \<noteq> c" by blast
    then have "map (\<lambda>s. if k s = c then g s else s) xs = xs" by (induction xs) auto
    with True show ?thesis by simp
  next
    case False
    with Cons show ?thesis by simp
  qed
qed

lemma find_updateOne:
  "(\<And>x. p x \<Longrightarrow> p (g x)) \<Longrightarrow> find p (updateOne p g xs) = map_option g (find p xs)"
  by (induction xs) auto

section \<open>Account deletion\<close>

lemma withTransaction_abort:
  "withTransaction fault callback d = (Inl e, d') \<Longrightarrow> d' = d"
  by (auto simp add: withTransaction_def split: prod.splits sum.splits if_splits)

lemma deleteUserAccount_atomic:
  "deleteUserAccount fault userId d = (Inl e, d') \<Longrightarrow> d' = d"
  by (auto simp add: deleteUserAccount_def split: if_splits dest: withTransaction_abort)

lemma callback_success:
  "deleteUserAccount_callback fault u d = (Inr c, d') \<Longrightarrow>
     userShares d' = deleteMany (\<lambda>s. us_ownerId s = u) (userShares d) \<and>
     shareLinks d' = deleteMany (\<lambda>s. sl_ownerId s = u) (shareLinks d) \<and>
     files d' = deleteMany (\<lambda>f. f_ownerId f = u) (files d) \<and>
     users d' = deleteOne (\<lambda>x. u_id x = u) (users d) \<and>
     auditLogs d' =
       updateMany (\<lambda>a. al_userId a = Val u \<and>
                        (case al_fileId a of None \<Rightarrow> True
                         | Some i \<Rightarrow> i \<notin> set (map f_id (filter (\<lambda>f. f_ownerId f = u) (files d)))))
          anonymized
          (deleteMany (\<lambda>a. case al_fileId a of None \<Rightarrow> False
                           | Some i \<Rightarrow> i \<in> set (map f_id (filter (\<lambda>f. f_ownerId f = u) (files d))))
             (auditLogs d))"
  by (auto simp add: deleteUserAccount_callback_def Let_def split: if_splits)

lemma deleteUserAccount_success:
  "deleteUserAccount fault userId d = (Inr c, d') \<Longrightarrow>
     deleteUserAccount_callback fault (ObjectId userId) d = (Inr c, d')"
  by (auto simp add: deleteUserAccount_def withTransaction_def
      split: if_splits prod.splits sum.splits)

lemma succeeds_run: "succeeds r \<Longrightarrow> \<exists>c d'. r = (Inr c, d')"
  by (cases r) (auto simp add: succeeds_def split: sum.splits)

text \<open>
  Claim C9. When account deletion succeeds, the user shares left are those of the
  database before it whose owner is not the deleted user, each as it was and in the same
  order: a share in which the user is only the recipient is neither removed nor changed,
  and only shares the user owns are removed. Whatever the outcome, the shares that the
  user does not own are the same before and after.
\<close>

theorem deleteUserAccount_recipient_shares:
  "(succeeds (deleteUserAccount fault userId d) \<longrightarrow>
      userShares (snd (deleteUserAccount fault userId d))
        = filter (\<lambda>s. us_ownerId s \<noteq> ObjectId userId) (userShares d))
   \<and> filter (\<lambda>s. us_ownerId s \<noteq> ObjectId userId)
         (userShares (snd (deleteUserAccount fault userId d)))
       = filter (\<lambda>s. us_ownerId s \<noteq> ObjectId userId) (userShares d)"
proof (cases "deleteUserAccount fault userId d")
  case (Pair r d')
  show ?thesis
  proof (cases r)
    case (Inl e)
    with Pair have "d' = d" by (auto dest: deleteUserAccount_atomic)
    with Pair Inl show ?thesis by (simp add: succeeds_def)
  next
    case (Inr c)
    with Pair have run: "deleteUserAccount fault userId d = (Inr c, d')" by simp
    from callback_success [OF deleteUserAccount_success [OF run]]
    have "userShares d' = filter (\<lambda>s. us_ownerId s \<noteq> ObjectId userId) (userShares d)"
      by (simp add: deleteMany_def)
    with run show ?thesis by simp
  qed
qed

theorem deleteUserAccount_recipient_shares_witness:
  "succeeds (deleteUserAccount None alice exampleDb) \<and>
   userShares (snd (deleteUserAccount None alice exampleDb)) = [shareBA]"
proof -
  have ok: "succeeds (deleteUserAccount None alice exampleDb)" by code_simp
  have "filter (\<lambda>s. us_ownerId s \<noteq> ObjectId alice) (userShares exampleDb) = [shareBA]"
    by code_simp
  with deleteUserAccount_recipient_shares [of None alice exampleDb] ok show ?thesis by simp
qed

section \<open>At most one active user share for a file and a recipient\<close>


lemma sharesInv_map:
  assumes inv: "sharesInv xs"
    and id: "\<And>s. us_id (h s) = us_id s"
    and pair: "\<And>s. us_fileId (h s) = us_fileId s \<and> us_recipientId (h s) = us_recipientId s"
    and act: "\<And>s. us_isActive (h s) \<Longrightarrow> us_isActive s"
  shows "sharesInv (map h xs)"
proof -
  let ?pair = "\<lambda>s. (us_fileId s, us_recipientId s)"
  have ids: "map us_id (map h xs) = map us_id xs" by (simp add: id)
  have f1: "filter us_isActive (map h xs) = map h (filter (\<lambda>s. us_isActive (h s)) xs)"
    by (simp add: filter_map comp_def)
  have f2: "filter (\<lambda>s. us_isActive (h s)) xs
      = filter (\<lambda>s. us_isActive (h s)) (filter us_isActive xs)"
    using act by (auto intro: filter_cong)
  have f3: "map ?pair (map h ys) = map ?pair ys" for ys by (simp add: pair)
  from inv have "distinct (map ?pair (filter us_isActive xs))" by (simp add: sharesInv_def)
  then have "distinct (map ?pair (filter (\<lambda>s. us_isActive (h s)) (filter us_isActive xs)))"
    by (rule distinct_map_filter)
  then have "distinct (map ?pair (filter us_isActive (map h xs)))"
    by (simp only: f1 f3 f2 [symmetric])
  moreover from inv have "distinct (map us_id (map h xs))" by (simp only: ids sharesInv_def)
  ultimately show ?thesis by (simp only: sharesInv_def)
qed

lemma sharesInv_filter:
  assumes inv: "sharesInv xs"
  shows "sharesInv (filter q xs)"
proof -
  let ?pair = "\<lambda>s. (us_fileId s, us_recipientId s)"
  have sw: "filter us_isActive (filter q xs) = filter q (filter us_isActive xs)"
    by (auto intro: filter_cong)
  from inv have "distinct (map ?pair (filter us_isActive xs))" by (simp add: sharesInv_def)
  then have "distinct (map ?pair (filter q (filter us_isActive xs)))"
    by (rule distinct_map_filter)
  then have "distinct (map ?pair (filter us_isActive (filter q xs)))" by (simp only: sw)
  moreover from inv have "distinct (map us_id (filter q xs))"
    by (simp only: sharesInv_def distinct_map_filter)
  ultimately show ?thesis by (simp only: sharesInv_def)
qed

lemma sharesInv_updateOne:
  assumes inv: "sharesInv xs"
    and id: "\<And>s. us_id (g s) = us_id s"
    and pair: "\<And>s. us_fileId (g s) = us_fileId s \<and> us_recipientId (g s) = us_recipientId s"
    and act: "\<And>s. us_isActive (g s) \<Longrightarrow> us_isActive s"
  shows "sharesInv (updateOne (\<lambda>s. us_id s = c) g xs)"
proof -
  from inv have "distinct (map us_id xs)" by (simp add: sharesInv_def)
  then have "updateOne (\<lambda>s. us_id s = c) g xs = map (\<lambda>s. if us_id s = c then g s else s) xs"
    by (rule updateOne_by_key)
  moreover have "sharesInv (map (\<lambda>s. if us_id s = c then g s else s) xs)"
    by (rule sharesInv_map [OF inv]) (auto simp add: id pair split: if_splits dest: act)
  ultimately show ?thesis by simp
qed

lemma sharesInv_updateMany:
  assumes inv: "sharesInv xs"
    and id: "\<And>s. us_id (g s) = us_id s"
    and pair: "\<And>s. us_fileId (g s) = us_fileId s \<and> us_recipientId (g s) = us_recipientId s"
    and act: "\<And>s. us_isActive (g s) \<Longrightarrow> us_isActive s"
  shows "sharesInv (updateMany p g xs)"
  unfolding updateMany_def
  by (rule sharesInv_map [OF inv]) (auto simp add: id pair split: if_splits dest: act)

lemma deactivated_simps [simp]:
  "us_id (deactivated now s) = us_id s"
  "us_fileId (deactivated now s) = us_fileId s"
  "us_recipientId (deactivated now s) = us_recipientId s"
  "us_isActive (deactivated now s) = False"
  by (simp_all add: deactivated_def)

lemma accessed_simps [simp]:
  "us_id (accessed now s) = us_id s"
  "us_fileId (accessed now s) = us_fileId s"
  "us_recipientId (accessed now s) = us_recipientId s"
  "us_isActive (accessed now s) = us_isActive s"
  "us_maxAccessCount (accessed now s) = us_maxAccessCount s"
  "us_expiresAt (accessed now s) = us_expiresAt s"
  "us_accessCount (accessed now s) = us_accessCount s + 1"
  "us_updatedAt (accessed now s) = now"
  by (simp_all add: accessed_def)

text \<open>The deactivation step of createUserShare, as a map over the collection.\<close>

lemma create_deactivates:
  assumes inv: "sharesInv coll"
  shows "(case findOne (\<lambda>s. us_fileId s = F \<and> us_recipientId s = R \<and> us_isActive s) coll of
            None \<Rightarrow> coll
          | Some e \<Rightarrow> updateOne (\<lambda>s. us_id s = us_id e) (deactivated now) coll)
         = map (\<lambda>s. if us_fileId s = F \<and> us_recipientId s = R \<and> us_isActive s
                     then deactivated now s else s) coll"
proof (cases "findOne (\<lambda>s. us_fileId s = F \<and> us_recipientId s = R \<and> us_isActive s) coll")
  case None
  then have "\<forall>s\<in>set coll. \<not> (us_fileId s = F \<and> us_recipientId s = R \<and> us_isActive s)"
    by (simp add: findOne_def find_None_iff)
  then have "map (\<lambda>s. if us_fileId s = F \<and> us_recipientId s = R \<and> us_isActive s
                     then deactivated now s else s) coll = coll"
    by (intro map_idI) auto
  with None show ?thesis by simp
next
  case (Some e)
  let ?pair = "\<lambda>s. (us_fileId s, us_recipientId s)"
  from Some have e: "e \<in> set coll" "us_fileId e = F" "us_recipientId e = R" "us_isActive e"
    by (auto simp add: findOne_def find_Some_iff)
  from inv have dist: "distinct (map us_id coll)"
    and inj: "inj_on ?pair (set (filter us_isActive coll))"
    by (simp_all add: sharesInv_def distinct_map)
  from dist have idinj: "inj_on us_id (set coll)" by (simp add: distinct_map)
  have same: "(us_id s = us_id e) = (us_fileId s = F \<and> us_recipientId s = R \<and> us_isActive s)"
    if "s \<in> set coll" for s
  proof
    assume "us_id s = us_id e"
    with idinj that e(1) have "s = e" by (auto dest: inj_onD)
    with e show "us_fileId s = F \<and> us_recipientId s = R \<and> us_isActive s" by simp
  next
    assume p: "us_fileId s = F \<and> us_recipientId s = R \<and> us_isActive s"
    with that e have "s \<in> set (filter us_isActive coll)" "e \<in> set (filter us_isActive coll)"
      "?pair s = ?pair e" by simp_all
    with inj have "s = e" by (auto dest: inj_onD)
    then show "us_id s = us_id e" by simp
  qed
  from dist have "updateOne (\<lambda>s. us_id s = us_id e) (deactivated now) coll
      = map (\<lambda>s. if us_id s = us_id e then deactivated now s else s) coll"
    by (rule updateOne_by_key)
  also have "\<dots> = map (\<lambda>s. if us_fileId s = F \<and> us_recipientId s = R \<and> us_isActive s
                     then deactivated now s else s) coll"
    by (rule map_cong) (simp_all add: same)
  finally show ?thesis using Some by simp
qed


lemma atMostOne_of_distinct:
  "distinct (map k ys) \<Longrightarrow> length (filter (\<lambda>s. k s = c) ys) \<le> 1"
proof (induction ys)
  case Nil
  then show ?case by simp
next
  case (Cons y ys)
  show ?case
  proof (cases "k y = c")
    case True
    from Cons.prems have "k y \<notin> k ` set ys" by simp
    with True have "\<forall>s\<in>set ys. k s \<noteq> c" by blast
    then have "filter (\<lambda>s. k s = c) ys = []" by (simp add: filter_empty_conv)
    with True show ?thesis by simp
  next
    case False
    with Cons show ?thesis by simp
  qed
qed

lemma sharesInv_at_most_one:
  assumes "sharesInv coll"
  shows "length (activeFor f r coll) \<le> 1"
proof -
  have "activeFor f r coll
      = filter (\<lambda>s. (us_fileId s, us_recipientId s) = (f, r)) (filter us_isActive coll)"
    unfolding activeFor_def by (auto intro: filter_cong)
  moreover from assms
  have "length (filter (\<lambda>s. (us_fileId s, us_recipientId s) = (f, r)) (filter us_isActive coll)) \<le> 1"
    unfolding sharesInv_def by (intro atMostOne_of_distinct) simp
  ultimately show ?thesis by simp
qed

text \<open>What a call of createUserShare leaves, by its three outcomes.\<close>

lemma createUserShare_outcome:
  assumes inv: "sharesInv (userShares d)"
    and run: "createUserShare newId now v d = (r, d')"
  defines "coll1 \<equiv> map (\<lambda>s. if us_fileId s = ObjectId (usd_fileId v) \<and>
                                us_recipientId s = ObjectId (usd_recipientId v) \<and> us_isActive s
                             then deactivated now s else s) (userShares d)"
  shows "(r = Inl ZodError \<and> d' = d) \<or>
         (r = Inl MongoError \<and> userShares d' = coll1) \<or>
         (\<exists>s. r = Inr s \<and> us_id s = newId \<and> newId \<notin> set (map us_id coll1) \<and>
              us_fileId s = ObjectId (usd_fileId v) \<and>
              us_recipientId s = ObjectId (usd_recipientId v) \<and> us_isActive s \<and>
              userShares d' = coll1 @ [s])"
proof -
  note dea = create_deactivates [OF inv, where F = "ObjectId (usd_fileId v)"
      and R = "ObjectId (usd_recipientId v)" and now = now, folded coll1_def]
  from run show ?thesis
    unfolding createUserShare_def Let_def dea
    by (auto simp add: insertOne_def split: if_splits)
qed

lemma deactivated_pair_gone:
  "activeFor F R (map (\<lambda>s. if us_fileId s = F \<and> us_recipientId s = R \<and> us_isActive s
                             then deactivated now s else s) coll) = []"
  by (induction coll) (simp_all add: activeFor_def)

lemma sharesInv_snoc:
  assumes inv: "sharesInv coll1"
    and fresh: "us_id s \<notin> set (map us_id coll1)"
    and none: "activeFor (us_fileId s) (us_recipientId s) coll1 = []"
  shows "sharesInv (coll1 @ [s])"
proof -
  let ?pair = "\<lambda>s. (us_fileId s, us_recipientId s)"
  have new: "?pair s \<notin> set (map ?pair (filter us_isActive coll1))"
  proof
    assume "?pair s \<in> set (map ?pair (filter us_isActive coll1))"
    then obtain x where x: "x \<in> set coll1" "us_isActive x" "?pair x = ?pair s" by auto
    then have "x \<in> set (activeFor (us_fileId s) (us_recipientId s) coll1)"
      by (simp add: activeFor_def)
    with none show False by simp
  qed
  from inv have d1: "distinct (map us_id coll1)"
    and d2: "distinct (map ?pair (filter us_isActive coll1))"
    by (simp_all add: sharesInv_def)
  from d1 fresh have "distinct (map us_id (coll1 @ [s]))" by simp
  moreover from d2 new have "distinct (map ?pair (filter us_isActive (coll1 @ [s])))"
    by simp
  ultimately show ?thesis by (simp only: sharesInv_def)
qed

lemma sharesInv_createUserShare:
  assumes inv: "sharesInv (userShares d)"
  shows "sharesInv (userShares (snd (createUserShare newId now v d)))"
proof -
  let ?h = "\<lambda>s. if us_fileId s = ObjectId (usd_fileId v) \<and>
                    us_recipientId s = ObjectId (usd_recipientId v) \<and> us_isActive s
                 then deactivated now s else s"
  have inv1: "sharesInv (map ?h (userShares d))"
    by (rule sharesInv_map [OF inv]) (auto split: if_splits)
  obtain r d' where run: "createUserShare newId now v d = (r, d')"
    by (cases "createUserShare newId now v d")
  from createUserShare_outcome [OF inv run] inv inv1 run show ?thesis
    by (auto intro!: sharesInv_snoc simp add: deactivated_pair_gone)
qed

lemma reachedInTurn_sharesInv: "reachedInTurn d \<Longrightarrow> sharesInv (userShares d)"
proof (induction rule: reachedInTurn.induct)
  case (no_shares d)
  then show ?case by (simp add: sharesInv_def)
next
  case (after_create d newId now v)
  from after_create.IH show ?case by (rule sharesInv_createUserShare)
next
  case (after_increment d now shareId)
  then show ?case
    by (auto simp add: incrementUserShareAccess_def intro!: sharesInv_updateOne)
next
  case (after_revokeAll d now fileId)
  then show ?case
    by (auto simp add: revokeAllUserSharesByFile_def intro!: sharesInv_updateMany)
next
  case (after_deactivate d now shareId)
  then show ?case
    by (auto simp add: deactivateUserShare_def intro!: sharesInv_updateOne)
next
  case (after_deleteFile d fault fileId)
  then show ?case
    by (auto simp add: deleteFile_def Let_def deleteMany_def intro!: sharesInv_filter)
next
  case (after_deleteAccount d fault userId)
  show ?case
  proof (cases "deleteUserAccount fault userId d")
    case (Pair r d')
    show ?thesis
    proof (cases r)
      case (Inl e)
      with Pair after_deleteAccount show ?thesis by (auto dest: deleteUserAccount_atomic)
    next
      case (Inr c)
      with Pair callback_success [OF deleteUserAccount_success, of fault userId d c d']
        after_deleteAccount
      show ?thesis by (auto simp add: deleteMany_def intro!: sharesInv_filter)
    qed
  qed
next
  case (same_shares d d')
  then show ?case by simp
qed

text \<open>
  A creation that runs alone makes its three calls back to back, and that is
  \<^verbatim>\<open>createUserShare\<close>.
\<close>

lemma creation_in_turn:
  "(case creation_step newId now v Parsing d of
      (c1, d1) \<Rightarrow>
        (case creation_step newId now v c1 d1 of
           (c2, d2) \<Rightarrow> creation_step newId now v c2 d2))
   = (case createUserShare newId now v d of
        (Inl e, d') \<Rightarrow> (Thrown e, d')
      | (Inr s, d') \<Rightarrow> (Created s, d'))"
  by (simp add: creation_step_def createUserShare_def Let_def)




text \<open>The database the overlapping creations leave is not reached by calls in turn.\<close>

lemma raced_not_in_turn: "\<not> reachedInTurn raced"
proof
  assume "reachedInTurn raced"
  then have "sharesInv (userShares raced)" by (rule reachedInTurn_sharesInv)
  then have "length (activeFor (ObjectId fileA) (ObjectId bob) (userShares raced)) \<le> 1"
    by (rule sharesInv_at_most_one)
  moreover have "length (activeFor (ObjectId fileA) (ObjectId bob) (userShares raced)) = 2"
    by code_simp
  ultimately show False by simp
qed

section \<open>The audit trail at account deletion\<close>

lemma own_logs_pred:
  "(case al_fileId a of None \<Rightarrow> False
    | Some i \<Rightarrow> i \<in> set (map f_id (filter (\<lambda>f. f_ownerId f = u) (files d))))
   = onOwnFile u d a"
  by (cases "al_fileId a") (auto simp add: onOwnFile_def list_ex_iff)

text \<open>
  Claim C5, as amended. When account deletion succeeds, the audit entries left are those
  of the database before it that do not refer to a file the user owns at that moment,
  in the same order, and among them each entry whose actor is the user has its actor set
  to null and its name to \<^verbatim>\<open>[Deleted User]\<close>, whatever file it refers to (another user's
  file, no file, or a file that exists no more); the others are as they were. The entries
  that refer to a file the user owns are deleted and none of them is anonymized.
\<close>

theorem deleteUserAccount_audit_trail:
  assumes "succeeds (deleteUserAccount fault userId d)"
  shows "auditLogs (snd (deleteUserAccount fault userId d)) =
           map (\<lambda>a. if al_userId a = Val (ObjectId userId) then anonymized a else a)
             (filter (\<lambda>a. \<not> onOwnFile (ObjectId userId) d a) (auditLogs d))
       \<and> al_userId (anonymized a) = Null
       \<and> al_username (anonymized a) = Some ''[Deleted User]''"
proof -
  let ?u = "ObjectId userId"
  let ?own = "\<lambda>a. case al_fileId a of None \<Rightarrow> False
                   | Some i \<Rightarrow> i \<in> set (map f_id (filter (\<lambda>f. f_ownerId f = ?u) (files d)))"
  from succeeds_run [OF assms] obtain c d'
    where run: "deleteUserAccount fault userId d = (Inr c, d')" by blast
  from callback_success [OF deleteUserAccount_success [OF run]]
  have logs: "auditLogs d' =
      updateMany (\<lambda>a. al_userId a = Val ?u \<and>
                       (case al_fileId a of None \<Rightarrow> True
                        | Some i \<Rightarrow> i \<notin> set (map f_id (filter (\<lambda>f. f_ownerId f = ?u) (files d)))))
        anonymized (deleteMany ?own (auditLogs d))"
    by simp
  have e1: "updateMany (\<lambda>a. al_userId a = Val ?u \<and>
                       (case al_fileId a of None \<Rightarrow> True
                        | Some i \<Rightarrow> i \<notin> set (map f_id (filter (\<lambda>f. f_ownerId f = ?u) (files d)))))
        anonymized (deleteMany ?own (auditLogs d))
      = map (\<lambda>a. if al_userId a = Val ?u then anonymized a else a)
          (deleteMany ?own (auditLogs d))"
    unfolding updateMany_def deleteMany_def
    by (rule map_cong) (auto split: option.splits)
  have e2: "deleteMany ?own (auditLogs d)
      = filter (\<lambda>a. \<not> onOwnFile ?u d a) (auditLogs d)"
    unfolding deleteMany_def by (simp only: own_logs_pred)
  from logs e1 have mapped: "auditLogs d' =
      map (\<lambda>a. if al_userId a = Val ?u then anonymized a else a)
        (deleteMany ?own (auditLogs d))"
    by (rule trans)
  have "auditLogs d' = map (\<lambda>a. if al_userId a = Val ?u then anonymized a else a)
      (filter (\<lambda>a. \<not> onOwnFile ?u d a) (auditLogs d))"
    by (rule trans [OF mapped]) (rule arg_cong [OF e2])
  with run show ?thesis by (simp add: anonymized_def)
qed

theorem deleteUserAccount_audit_trail_witness:
  "succeeds (deleteUserAccount None alice exampleDb) \<and>
   auditLogs (snd (deleteUserAccount None alice exampleDb))
     = [anonymized (logEntry fileB DOWNLOAD alice ''alice''), logEntry fileB UPLOAD bob ''bob'']"
proof -
  have ok: "succeeds (deleteUserAccount None alice exampleDb)" by code_simp
  have "map (\<lambda>a. if al_userId a = Val (ObjectId alice) then anonymized a else a)
          (filter (\<lambda>a. \<not> onOwnFile (ObjectId alice) exampleDb a) (auditLogs exampleDb))
      = [anonymized (logEntry fileB DOWNLOAD alice ''alice''), logEntry fileB UPLOAD bob ''bob'']"
    by code_simp
  with deleteUserAccount_audit_trail [OF ok] ok show ?thesis by simp
qed

text \<open>
  Claim C5, as stated, fails. Alice deletes her file: the cascade removes the file's audit
  entries, and the middleware of the route then records the deletion itself, with the
  identifier of the file that is gone. When Alice deletes her account, that entry is
  anonymized, though she is not in it the actor on another user's file.
\<close>

theorem anonymizes_own_deleted_file_counterexample:
  "auditLogs (store afterFileDeleted)
     = [logEntry fileB DOWNLOAD alice ''alice'', logEntry fileB UPLOAD bob ''bob'', deleteEntry]
   \<and> \<not> actorOnOthersFile (ObjectId alice) (store afterFileDeleted) deleteEntry
   \<and> auditLogs (snd (deleteUserAccount None alice (store afterFileDeleted)))
     = [anonymized (logEntry fileB DOWNLOAD alice ''alice''), logEntry fileB UPLOAD bob ''bob'',
        anonymized deleteEntry]"
  by code_simp

section \<open>File deletion\<close>

text \<open>
  Claim C2. Account deletion is all or nothing (\<open>deleteUserAccount_atomic\<close> above), but
  file deletion is not: when the store throws on the third of the four deletes of
  \<^verbatim>\<open>deleteFile\<close>, the file and its share links are gone, and its user shares and audit
  entries are still there.
\<close>

theorem deleteFile_partial:
  "fst (deleteFile (Some 2) fileA exampleDb) = Inl MongoError
   \<and> files (snd (deleteFile (Some 2) fileA exampleDb)) = [docB]
   \<and> shareLinks (snd (deleteFile (Some 2) fileA exampleDb)) = []
   \<and> userShares (snd (deleteFile (Some 2) fileA exampleDb)) = [shareAB, shareBA]
   \<and> auditLogs (snd (deleteFile (Some 2) fileA exampleDb)) = auditLogs exampleDb
   \<and> snd (deleteFile (Some 2) fileA exampleDb) \<noteq> exampleDb"
  by code_simp

section \<open>Consumption of a user share\<close>


lemma tryConsume_outcome:
  assumes found: "findOne (\<lambda>s. us_id s = ObjectId shareId) (userShares d) = Some share"
  shows "(fst (tryConsume now shareId d) = Granted \<and>
            (case us_maxAccessCount share of None \<Rightarrow> True | Some m \<Rightarrow> us_accessCount share < m) \<and>
            findOne (\<lambda>s. us_id s = ObjectId shareId) (userShares (snd (tryConsume now shareId d)))
              = Some (accessed now share))
       \<or> (fst (tryConsume now shareId d) \<noteq> Granted \<and> snd (tryConsume now shareId d) = d)"
proof (cases "fst (validateUserShare now shareId d) = Inr True")
  case True
  then have valid: "objectIdSchema shareId"
    and cap: "(case us_maxAccessCount share of None \<Rightarrow> True | Some m \<Rightarrow> us_accessCount share < m)"
    using found by (auto simp add: validateUserShare_verdict)
  from True have v: "validateUserShare now shareId d = (Inr True, d)"
    using validateUserShare_db [of now shareId d] by (cases "validateUserShare now shareId d") simp
  have "find (\<lambda>s. us_id s = ObjectId shareId)
           (updateOne (\<lambda>s. us_id s = ObjectId shareId) (accessed now) (userShares d))
        = map_option (accessed now) (find (\<lambda>s. us_id s = ObjectId shareId) (userShares d))"
    by (rule find_updateOne) (simp add: accessed_def)
  with found valid v cap show ?thesis
    by (simp add: tryConsume_def attempt_step_def incrementUserShareAccess_def findOne_def)
next
  case False
  obtain r where v: "validateUserShare now shareId d = (r, d)"
    using validateUserShare_db [of now shareId d] by (cases "validateUserShare now shareId d") simp
  with False have "r \<noteq> Inr True" by simp
  with v show ?thesis
    by (cases r) (auto simp add: tryConsume_def attempt_step_def)
qed

text \<open>
  Claim C1, as amended. The capacity check and the increment of the usage counter are two
  calls to the store, a read by \<^verbatim>\<open>validateUserShare\<close> and then an unconditional increment
  by \<^verbatim>\<open>incrementUserShareAccess\<close>. When the attempts on a share with maximum access count
  \<open>N\<close> run one after the other, each making its two calls back to back (which is what
  the download route does with a request that runs alone, see
  \<open>recipient_download_tryConsume\<close> below), the attempts granted and the accesses already
  counted together never exceed \<open>N\<close>.
\<close>

theorem consumeAll_bounded:
  assumes "findOne (\<lambda>s. us_id s = ObjectId shareId) (userShares d) = Some share"
    and "us_maxAccessCount share = Some N"
    and "us_accessCount share \<le> N"
  shows "int (grants (fst (consumeAll ts shareId d))) + us_accessCount share \<le> N"
  using assms
proof (induction ts arbitrary: d share)
  case Nil
  then show ?case by (simp add: grants_def)
next
  case (Cons now ts)
  obtain ph d' where t: "tryConsume now shareId d = (ph, d')"
    by (cases "tryConsume now shareId d")
  obtain phs d'' where r: "consumeAll ts shareId d' = (phs, d'')"
    by (cases "consumeAll ts shareId d'")
  from tryConsume_outcome [OF Cons.prems(1), of now] t
  consider (granted) "ph = Granted" "us_accessCount share < N"
      "findOne (\<lambda>s. us_id s = ObjectId shareId) (userShares d') = Some (accessed now share)"
    | (refused) "ph \<noteq> Granted" "d' = d"
    using Cons.prems(2) by auto
  then show ?case
  proof cases
    case granted
    from granted(2) Cons.prems(2)
    have "int (grants (fst (consumeAll ts shareId d'))) + us_accessCount (accessed now share) \<le> N"
      by (intro Cons.IH [OF granted(3)]) (simp_all add: accessed_def)
    with granted(1) t r show ?thesis by (simp add: grants_def accessed_def)
  next
    case refused
    from Cons.IH [OF Cons.prems] have "int (grants (fst (consumeAll ts shareId d))) + us_accessCount share \<le> N" .
    with refused t r show ?thesis by (simp add: grants_def)
  qed
qed

theorem consumeAll_bounded_witness:
  "grants (fst (consumeAll [10, 11, 12] (us_id shareAB) exampleDb)) = 1
   \<and> int (grants (fst (consumeAll [10, 11, 12] (us_id shareAB) exampleDb)))
       + us_accessCount shareAB \<le> 1"
proof -
  have f: "findOne (\<lambda>s. us_id s = ObjectId (us_id shareAB)) (userShares exampleDb) = Some shareAB"
    by code_simp
  have m: "us_maxAccessCount shareAB = Some 1" by code_simp
  have c: "us_accessCount shareAB \<le> 1" by code_simp
  have "grants (fst (consumeAll [10, 11, 12] (us_id shareAB) exampleDb)) = 1" by code_simp
  with consumeAll_bounded [OF f m c, of "[10, 11, 12]"] show ?thesis by simp
qed

text \<open>
  Claim C1, as stated, fails. Two attempts on a share with maximum access count 1 and no
  access yet: both are validated before either increments, both are granted, and the
  counter ends at 2.
\<close>

theorem overlapping_consumption_counterexample:
  "us_maxAccessCount shareAB = Some 1
   \<and> fst (interleave [(0, 10), (1, 10), (0, 11), (1, 11)] (us_id shareAB)
            ([Start, Start], exampleDb)) = [Granted, Granted]
   \<and> map us_accessCount
        (userShares (snd (interleave [(0, 10), (1, 10), (0, 11), (1, 11)] (us_id shareAB)
                            ([Start, Start], exampleDb)))) = [2, 0]"
  by code_simp

section \<open>The routes and the audit middleware\<close>


lemma createAuditLog_frame:
  "userShares (snd (createAuditLog f now v d)) = userShares d \<and>
   shareLinks (snd (createAuditLog f now v d)) = shareLinks d \<and>
   files (snd (createAuditLog f now v d)) = files d \<and>
   users (snd (createAuditLog f now v d)) = users d"
  by (simp add: createAuditLog_def Let_def)

lemma auditLogger_response:
  "fst (auditLogger act ex ev now handler req sv) = fst (fst (handler req sv))"
  by (auto simp add: auditLogger_def Let_def split: prod.splits sum.splits)

lemma auditLogger_store:
  "store (snd (auditLogger act ex ev now handler req sv)) = store (snd (handler req sv)) \<or>
   (\<exists>v. store (snd (auditLogger act ex ev now handler req sv))
          = snd (createAuditLog (env_auditInsertFails ev) now v (store (snd (handler req sv)))))"
proof -
  obtain res loc sv1 where h: "handler req sv = ((res, loc), sv1)"
    by (cases "handler req sv") auto
  let ?v = "\<lparr>ad_fileId = firstTruthy [req_params_fileId req,
                                         map_option sb_fileId (req_body req), loc_fileId loc],
             ad_action = act,
             ad_userId = map_option au_userId (req_user req),
             ad_username = map_option au_username (req_user req),
             ad_ipAddress = Some (getClientIp req),
             ad_location = getLocation req,
             ad_details = ex req loc\<rparr>"
  obtain r d' where c: "createAuditLog (env_auditInsertFails ev) now ?v (store sv1) = (r, d')"
    by (cases "createAuditLog (env_auditInsertFails ev) now ?v (store sv1)")
  then have d': "d' = snd (createAuditLog (env_auditInsertFails ev) now ?v (store sv1))"
    by simp
  show ?thesis
  proof (cases "200 \<le> status res \<and> status res < 300 \<and>
      (firstTruthy [req_params_fileId req, map_option sb_fileId (req_body req), loc_fileId loc]
         \<noteq> None \<or> act = EXPIRED_LINK_ATTEMPT)")
    case True
    with h c have "store (snd (auditLogger act ex ev now handler req sv)) = d'"
      by (cases r) (simp_all add: auditLogger_def Let_def)
    with d' h show ?thesis by auto
  next
    case False
    with h have "snd (auditLogger act ex ev now handler req sv) = sv1"
      by (auto simp add: auditLogger_def Let_def)
    with h show ?thesis by simp
  qed
qed

lemma auditLogger_frame:
  "userShares (store (snd (auditLogger act ex ev now handler req sv)))
     = userShares (store (snd (handler req sv))) \<and>
   shareLinks (store (snd (auditLogger act ex ev now handler req sv)))
     = shareLinks (store (snd (handler req sv))) \<and>
   files (store (snd (auditLogger act ex ev now handler req sv)))
     = files (store (snd (handler req sv)))"
  using auditLogger_store [of act ex ev now handler req sv]
  by (auto simp add: createAuditLog_frame)

lemma auditLogger_not_2xx:
  "\<not> (200 \<le> status (fst (fst (handler req sv))) \<and> status (fst (fst (handler req sv))) < 300) \<Longrightarrow>
     snd (auditLogger act ex ev now handler req sv) = snd (handler req sv)"
  by (auto simp add: auditLogger_def Let_def split: prod.splits sum.splits)

lemma caught_store: "store (snd (caught l m e sv)) = store sv"
  by (simp add: caught_def)

lemma filesDownload_send_shares:
  "userShares (store (snd (filesDownload_send ev now fileId file us loc sv)))
     = userShares (store sv)"
  by (auto simp add: filesDownload_send_def updateAccessStats_def caught_def
      split: sum.splits prod.splits if_splits)


lemma validateUserShare_found:
  assumes "objectIdSchema shareId"
    and "findOne (\<lambda>s. us_id s = ObjectId shareId) (userShares d) = Some share"
  shows "validateUserShare now shareId d =
           (Inr (us_isActive share \<and>
                 (case us_expiresAt share of None \<Rightarrow> True | Some e \<Rightarrow> now < e) \<and>
                 (case us_maxAccessCount share of None \<Rightarrow> True
                  | Some m \<Rightarrow> us_accessCount share < m)), d)"
  using assms by (auto simp add: validateUserShare_def split: option.splits)

lemma server_store_same [simp]: "sv\<lparr>store := store sv\<rparr> = sv"
  by simp



lemma filesDownload_send_status:
  "status (fst (fst (filesDownload_send ev now fileId f us loc sv))) \<noteq> 403"
  by (auto simp add: filesDownload_send_def caught_def err_def
      split: sum.splits prod.splits if_splits)

lemma recipient_download:
  assumes param: "fileIdSchema req = Some fileId"
    and lookup: "getFileById fileId (store sv) = Inr (Some f)"
    and user: "req_user req = Some user"
    and guest: "f_ownerId f \<noteq> au_userId user"
    and share: "getShareByFileAndRecipient fileId (au_userId user) (store sv) = Inr (Some share)"
    and wf: "objectIdSchema (us_id share)"
    and v: "validateUserShare now (us_id share) (store sv) = (Inr valid, store sv)"
  shows "(\<not> valid \<longrightarrow> filesDownload_route ev now req sv
            = (err 403 ''Share has expired or reached maximum accesses'', sv))
       \<and> (valid \<longrightarrow> status (fst (filesDownload_route ev now req sv)) \<noteq> 403 \<and>
            userShares (store (snd (filesDownload_route ev now req sv)))
              = updateOne (\<lambda>s. us_id s = ObjectId (us_id share)) (accessed now)
                  (userShares (store sv)))"
proof -
  let ?ex = "\<lambda>req loc. Some [(''via'', if loc_isSharedFile loc then ''user_share'' else ''owner'')]"
  have refused: "filesDownload_route ev now req sv
      = (err 403 ''Share has expired or reached maximum accesses'', sv)" if "\<not> valid"
  proof -
    from that v param lookup user guest share
    have h: "filesDownload ev now req sv
        = ((err 403 ''Share has expired or reached maximum accesses'', noLocals), sv)"
      by (simp add: filesDownload_def)
    then have "\<not> (200 \<le> status (fst (fst (filesDownload ev now req sv))) \<and>
        status (fst (fst (filesDownload ev now req sv))) < 300)"
      by (simp add: err_def)
    from auditLogger_not_2xx [where handler = "filesDownload ev now" and req = req
        and sv = sv and act = DOWNLOAD and ex = ?ex and ev = ev and now = now, OF this]
      auditLogger_response [of DOWNLOAD ?ex ev now "filesDownload ev now" req sv] h
    show ?thesis
      unfolding filesDownload_route_def by (simp add: prod_eq_iff)
  qed
  have granted: "status (fst (filesDownload_route ev now req sv)) \<noteq> 403 \<and>
      userShares (store (snd (filesDownload_route ev now req sv)))
      = updateOne (\<lambda>s. us_id s = ObjectId (us_id share)) (accessed now) (userShares (store sv))"
    if "valid"
  proof -
    from that v param lookup user guest share wf
    have h: "filesDownload ev now req sv
        = filesDownload_send ev now fileId f (Some share)
            (noLocals\<lparr>loc_isSharedFile := True\<rparr>)
            (sv\<lparr>store := (store sv)\<lparr>userShares :=
                 updateOne (\<lambda>s. us_id s = ObjectId (us_id share)) (accessed now)
                   (userShares (store sv))\<rparr>\<rparr>)"
      by (simp add: filesDownload_def incrementUserShareAccess_def)
    then have "userShares (store (snd (filesDownload ev now req sv)))
        = updateOne (\<lambda>s. us_id s = ObjectId (us_id share)) (accessed now) (userShares (store sv))"
      by (simp add: filesDownload_send_shares)
    moreover from h have "status (fst (fst (filesDownload ev now req sv))) \<noteq> 403"
      by (simp add: filesDownload_send_status)
    ultimately show ?thesis
      using auditLogger_frame [of DOWNLOAD ?ex ev now "filesDownload ev now" req sv]
        auditLogger_response [of DOWNLOAD ?ex ev now "filesDownload ev now" req sv]
      unfolding filesDownload_route_def by simp
  qed
  from refused granted show ?thesis by blast
qed

text \<open>
  Claim C8. A user who does not own the file downloads it through a share whose \<^verbatim>\<open>_id\<close> is
  an ObjectId that denotes it. When the share has expired or is exhausted, the route
  answers 403 and leaves the server as it was, the counter included: the validation
  comes first and nothing is incremented. When the route answers 200, the share has had
  its access count raised by one and its \<^verbatim>\<open>updatedAt\<close> set to now, and no other user share
  has changed.
\<close>

theorem download_checks_then_increments:
  assumes param: "fileIdSchema req = Some fileId"
    and lookup: "getFileById fileId (store sv) = Inr (Some f)"
    and user: "req_user req = Some user"
    and guest: "f_ownerId f \<noteq> au_userId user"
    and share: "getShareByFileAndRecipient fileId (au_userId user) (store sv) = Inr (Some share)"
    and wf: "objectIdSchema (us_id share)"
    and found: "findOne (\<lambda>s. us_id s = ObjectId (us_id share)) (userShares (store sv)) = Some share"
  shows "((\<exists>e. us_expiresAt share = Some e \<and> e \<le> now) \<or>
          (\<exists>m. us_maxAccessCount share = Some m \<and> m \<le> us_accessCount share) \<longrightarrow>
            filesDownload_route ev now req sv
              = (err 403 ''Share has expired or reached maximum accesses'', sv))
       \<and> (status (fst (filesDownload_route ev now req sv)) = 200 \<longrightarrow>
            findOne (\<lambda>s. us_id s = ObjectId (us_id share))
              (userShares (store (snd (filesDownload_route ev now req sv))))
              = Some (accessed now share) \<and>
            userShares (store (snd (filesDownload_route ev now req sv)))
              = updateOne (\<lambda>s. us_id s = ObjectId (us_id share)) (accessed now)
                  (userShares (store sv)))"
proof -
  define valid where "valid = (us_isActive share \<and>
      (case us_expiresAt share of None \<Rightarrow> True | Some e \<Rightarrow> now < e) \<and>
      (case us_maxAccessCount share of None \<Rightarrow> True | Some m \<Rightarrow> us_accessCount share < m))"
  from validateUserShare_found [OF wf found, of now]
  have v: "validateUserShare now (us_id share) (store sv) = (Inr valid, store sv)"
    by (simp only: valid_def)
  note route = recipient_download [OF param lookup user guest share wf v, of ev]
  have after: "find (\<lambda>s. us_id s = ObjectId (us_id share))
           (updateOne (\<lambda>s. us_id s = ObjectId (us_id share)) (accessed now)
              (userShares (store sv)))
        = map_option (accessed now)
            (find (\<lambda>s. us_id s = ObjectId (us_id share)) (userShares (store sv)))"
    by (rule find_updateOne) (simp add: accessed_def)
  show ?thesis
  proof (cases valid)
    case True
    then have "\<not> ((\<exists>e. us_expiresAt share = Some e \<and> e \<le> now) \<or>
          (\<exists>m. us_maxAccessCount share = Some m \<and> m \<le> us_accessCount share))"
      by (auto simp add: valid_def)
    with route True after found show ?thesis
      by (auto simp add: findOne_def)
  next
    case False
    with route show ?thesis by (simp add: err_def)
  qed
qed

text \<open>
  The consumption of the share by the route is the attempt that runs alone: the same
  user shares are left, and the route answers 403 exactly when the attempt is rejected.
\<close>

lemma recipient_download_tryConsume:
  assumes param: "fileIdSchema req = Some fileId"
    and lookup: "getFileById fileId (store sv) = Inr (Some f)"
    and user: "req_user req = Some user"
    and guest: "f_ownerId f \<noteq> au_userId user"
    and share: "getShareByFileAndRecipient fileId (au_userId user) (store sv) = Inr (Some share)"
    and wf: "objectIdSchema (us_id share)"
    and found: "findOne (\<lambda>s. us_id s = ObjectId (us_id share)) (userShares (store sv)) = Some share"
  shows "userShares (store (snd (filesDownload_route ev now req sv)))
           = userShares (snd (tryConsume now (us_id share) (store sv)))
       \<and> (status (fst (filesDownload_route ev now req sv)) = 403)
           = (fst (tryConsume now (us_id share) (store sv)) = Rejected)
       \<and> (status (fst (filesDownload_route ev now req sv)) \<noteq> 403)
           = (fst (tryConsume now (us_id share) (store sv)) = Granted)"
proof -
  define valid where "valid = (us_isActive share \<and>
      (case us_expiresAt share of None \<Rightarrow> True | Some e \<Rightarrow> now < e) \<and>
      (case us_maxAccessCount share of None \<Rightarrow> True | Some m \<Rightarrow> us_accessCount share < m))"
  from validateUserShare_found [OF wf found, of now]
  have v: "validateUserShare now (us_id share) (store sv) = (Inr valid, store sv)"
    by (simp only: valid_def)
  note route = recipient_download [OF param lookup user guest share wf v, of ev]
  show ?thesis
  proof (cases valid)
    case True
    with v wf have "tryConsume now (us_id share) (store sv)
        = (Granted, (store sv)\<lparr>userShares :=
             updateOne (\<lambda>s. us_id s = ObjectId (us_id share)) (accessed now)
               (userShares (store sv))\<rparr>)"
      by (simp add: tryConsume_def attempt_step_def incrementUserShareAccess_def)
    with route True show ?thesis by simp
  next
    case False
    with v have "tryConsume now (us_id share) (store sv) = (Rejected, store sv)"
      by (simp add: tryConsume_def attempt_step_def)
    with route False show ?thesis by (simp add: err_def)
  qed
qed

theorem download_checks_then_increments_witness:
  "status (fst (filesDownload_route quiet 10 bobWantsA server0)) = 200
   \<and> findOne (\<lambda>s. us_id s = ObjectId (us_id shareAB)) (userShares (store afterDownload))
       = Some (accessed 10 shareAB)
   \<and> us_accessCount (accessed 10 shareAB) = 1
   \<and> filesDownload_route quiet 11 bobWantsA afterDownload
       = (err 403 ''Share has expired or reached maximum accesses'', afterDownload)"
proof -
  have p: "fileIdSchema bobWantsA = Some fileA" by code_simp
  have u: "req_user bobWantsA = Some \<lparr>au_userId = bob, au_username = ''bob''\<rparr>" by code_simp
  have wf: "objectIdSchema (us_id shareAB)" by code_simp
  have g: "f_ownerId docA \<noteq> au_userId \<lparr>au_userId = bob, au_username = ''bob''\<rparr>" by code_simp
  have l0: "getFileById fileA (store server0) = Inr (Some docA)" by code_simp
  have s0: "getShareByFileAndRecipient fileA (au_userId \<lparr>au_userId = bob, au_username = ''bob''\<rparr>)
              (store server0) = Inr (Some shareAB)" by code_simp
  have f0: "findOne (\<lambda>s. us_id s = ObjectId (us_id shareAB)) (userShares (store server0))
              = Some shareAB" by code_simp
  have ok: "status (fst (filesDownload_route quiet 10 bobWantsA server0)) = 200" by code_simp
  note first = download_checks_then_increments [OF p l0 u g s0 wf f0, of 10 quiet]
  let ?docA = "docA\<lparr>f_accessCount := 1, f_lastAccessedAt := 10, f_updatedAt := 10\<rparr>"
  have g1: "f_ownerId ?docA \<noteq> au_userId \<lparr>au_userId = bob, au_username = ''bob''\<rparr>" by code_simp
  have l1: "getFileById fileA (store afterDownload) = Inr (Some ?docA)" by code_simp
  have s1: "getShareByFileAndRecipient fileA (au_userId \<lparr>au_userId = bob, au_username = ''bob''\<rparr>)
              (store afterDownload) = Inr (Some (accessed 10 shareAB))" by code_simp
  have wf1: "objectIdSchema (us_id (accessed 10 shareAB))" by code_simp
  have f1: "findOne (\<lambda>s. us_id s = ObjectId (us_id (accessed 10 shareAB)))
              (userShares (store afterDownload)) = Some (accessed 10 shareAB)" by code_simp
  have ex: "\<exists>m. us_maxAccessCount (accessed 10 shareAB) = Some m \<and>
                m \<le> us_accessCount (accessed 10 shareAB)"
    by (simp add: accessed_def shareAB_def)
  have c: "us_accessCount (accessed 10 shareAB) = 1" by code_simp
  note second = download_checks_then_increments [OF p l1 u g1 s1 wf1 f1, of 11 quiet]
  from first ok
  have A: "findOne (\<lambda>s. us_id s = ObjectId (us_id shareAB))
      (userShares (store (snd (filesDownload_route quiet 10 bobWantsA server0))))
      = Some (accessed 10 shareAB)"
    by blast
  from second ex
  have B: "filesDownload_route quiet 11 bobWantsA afterDownload
      = (err 403 ''Share has expired or reached maximum accesses'', afterDownload)"
    by blast
  from ok A B c show ?thesis
    unfolding afterDownload_def by blast
qed

section \<open>Looking up a file that is missing or not one's own\<close>

text \<open>
  Claim C7, as stated, fails. Bob asks for the active shares of a file: when the file
  does not exist the answer is 404, and when it is Alice's the answer is 403 with another
  message, so the two causes can be told apart.
\<close>

theorem activeShares_lookup_counterexample:
  "activeShares_lookup (fileRequest bob ''bob'' missingFile) server0
     = Inl (err 404 ''File not found'', server0)
   \<and> activeShares_lookup (fileRequest bob ''bob'' fileA) server0
     = Inl (err 403 ''Unauthorized: You do not own this file'', server0)
   \<and> err 404 ''File not found'' \<noteq> err 403 ''Unauthorized: You do not own this file''"
  by code_simp

text \<open>
  Claim C7, as amended. When the file does not exist, or exists and is owned by another
  user than the requester, the lookups of \<^verbatim>\<open>POST /api/share/create\<close> and of
  \<^verbatim>\<open>DELETE /api/files/:fileId\<close> give the same answer, 404 with \<^verbatim>\<open>File not found\<close>, and leave
  the server as it was; the lookup of \<^verbatim>\<open>GET /api/share/file/:fileId/active-shares\<close> answers
  404 in the first case and 403 in the second.
\<close>

theorem lookups_same_404:
  assumes "getFileById fileId (store sv) = Inr None \<or>
           (\<exists>f user. getFileById fileId (store sv) = Inr (Some f) \<and> req_user req = Some user \<and>
              f_ownerId f \<noteq> au_userId user)"
  shows "(req_body req = Some v \<and> createShareSchema v \<and> sb_fileId v = fileId \<longrightarrow>
            shareCreate_lookup req sv = Inl (err 404 ''File not found'', sv))
       \<and> (fileIdSchema req = Some fileId \<longrightarrow>
            filesDelete_route ev now req sv = (err 404 ''File not found'', sv))
       \<and> (req_params_fileId req = Some fileId \<and> ObjectId_isValid fileId \<longrightarrow>
            activeShares_lookup req sv
              = Inl (if getFileById fileId (store sv) = Inr None then err 404 ''File not found''
                     else err 403 ''Unauthorized: You do not own this file'', sv))"
proof -
  have create: "shareCreate_lookup req sv = Inl (err 404 ''File not found'', sv)"
    if "req_body req = Some v" "createShareSchema v" "sb_fileId v = fileId"
    using assms that by (auto simp add: shareCreate_lookup_def)
  have active: "activeShares_lookup req sv
      = Inl (if getFileById fileId (store sv) = Inr None then err 404 ''File not found''
             else err 403 ''Unauthorized: You do not own this file'', sv)"
    if "req_params_fileId req = Some fileId" "ObjectId_isValid fileId"
    using assms that by (auto simp add: activeShares_lookup_def)
  have delete: "filesDelete_route ev now req sv = (err 404 ''File not found'', sv)"
    if "fileIdSchema req = Some fileId"
  proof -
    from assms that
    have h: "filesDelete ev req sv = ((err 404 ''File not found'', noLocals), sv)"
      by (auto simp add: filesDelete_def)
    then have "\<not> (200 \<le> status (fst (fst (filesDelete ev req sv))) \<and>
        status (fst (fst (filesDelete ev req sv))) < 300)"
      by (simp add: err_def)
    from auditLogger_not_2xx [where handler = "filesDelete ev" and req = req and sv = sv
        and act = DELETE and ex = "\<lambda>req loc. None" and ev = ev and now = now, OF this]
      auditLogger_response [of DELETE "\<lambda>req loc. None" ev now "filesDelete ev" req sv] h
    show ?thesis
      unfolding filesDelete_route_def by (simp add: prod_eq_iff)
  qed
  from create active delete show ?thesis by blast
qed

theorem lookups_same_404_witness:
  "shareCreate_lookup ((fileRequest bob ''bob'' missingFile)\<lparr>req_body := Some (shareBodyFor missingFile)\<rparr>) server0
     = Inl (err 404 ''File not found'', server0)
   \<and> shareCreate_lookup ((fileRequest bob ''bob'' fileA)\<lparr>req_body := Some (shareBodyFor fileA)\<rparr>) server0
     = Inl (err 404 ''File not found'', server0)
   \<and> filesDelete_route quiet 10 (fileRequest bob ''bob'' missingFile) server0
     = (err 404 ''File not found'', server0)
   \<and> filesDelete_route quiet 10 (fileRequest bob ''bob'' fileA) server0
     = (err 404 ''File not found'', server0)"
proof -
  let ?rm = "(fileRequest bob ''bob'' missingFile)\<lparr>req_body := Some (shareBodyFor missingFile)\<rparr>"
  let ?ra = "(fileRequest bob ''bob'' fileA)\<lparr>req_body := Some (shareBodyFor fileA)\<rparr>"
  have m: "getFileById missingFile (store server0) = Inr None" by code_simp
  have a: "getFileById fileA (store server0) = Inr (Some docA)" by code_simp
  have o: "f_ownerId docA \<noteq> au_userId \<lparr>au_userId = bob, au_username = ''bob''\<rparr>" by code_simp
  have ua: "req_user ?ra = Some \<lparr>au_userId = bob, au_username = ''bob''\<rparr>" by code_simp
  have ud: "req_user (fileRequest bob ''bob'' fileA) = Some \<lparr>au_userId = bob, au_username = ''bob''\<rparr>"
    by code_simp
  have bm: "req_body ?rm = Some (shareBodyFor missingFile) \<and> createShareSchema (shareBodyFor missingFile)
      \<and> sb_fileId (shareBodyFor missingFile) = missingFile" by code_simp
  have ba: "req_body ?ra = Some (shareBodyFor fileA) \<and> createShareSchema (shareBodyFor fileA)
      \<and> sb_fileId (shareBodyFor fileA) = fileA" by code_simp
  have pm: "fileIdSchema (fileRequest bob ''bob'' missingFile) = Some missingFile" by code_simp
  have pa: "fileIdSchema (fileRequest bob ''bob'' fileA) = Some fileA" by code_simp
  from m have hm: "getFileById missingFile (store server0) = Inr None \<or>
      (\<exists>f user. getFileById missingFile (store server0) = Inr (Some f) \<and> req_user r = Some user \<and>
              f_ownerId f \<noteq> au_userId user)" for r :: request by simp
  from a o ua have ha1: "getFileById fileA (store server0) = Inr None \<or>
      (\<exists>f user. getFileById fileA (store server0) = Inr (Some f) \<and> req_user ?ra = Some user \<and>
              f_ownerId f \<noteq> au_userId user)" by blast
  from a o ud have ha2: "getFileById fileA (store server0) = Inr None \<or>
      (\<exists>f user. getFileById fileA (store server0) = Inr (Some f) \<and>
              req_user (fileRequest bob ''bob'' fileA) = Some user \<and>
              f_ownerId f \<noteq> au_userId user)" by blast
  from lookups_same_404 [OF hm, of ?rm "shareBodyFor missingFile" quiet 10] bm
    lookups_same_404 [OF ha1, of "shareBodyFor fileA" quiet 10] ba
    lookups_same_404 [OF hm, of "fileRequest bob ''bob'' missingFile" "shareBodyFor missingFile" quiet 10] pm
    lookups_same_404 [OF ha2, of "shareBodyFor fileA" quiet 10] pa
  show ?thesis by blast
qed

section \<open>The public share routes\<close>

text \<open>
  Claim C6. A download through a public link that succeeds when the audit entry can be
  written fails when it cannot: the handler awaits \<^verbatim>\<open>createAuditLog\<close> inside its \<^verbatim>\<open>try\<close>, so
  the answer is 500 although the access has been counted against the share, and the
  entry is lost. The failure does reach the console. The middleware, for its part,
  sends the handler's response whatever becomes of the entry (\<open>auditLogger_response\<close>).
\<close>

theorem shareDownload_audit_failure:
  "fst (shareDownload quiet 10 (tokenRequest tokenA) server0)
     = \<lparr>status = 200, body = ShareDownload ''https://s3/alice/a.pdf'' ''a.pdf'' (Some 2)\<rparr>
   \<and> fst (shareDownload auditDown 10 (tokenRequest tokenA) server0)
     = err 500 ''Failed to download shared file''
   \<and> shareLinks (store (snd (shareDownload auditDown 10 (tokenRequest tokenA) server0)))
     = [consumedLink]
   \<and> auditLogs (store (snd (shareDownload auditDown 10 (tokenRequest tokenA) server0)))
     = auditLogs exampleDb
   \<and> console (snd (shareDownload auditDown 10 (tokenRequest tokenA) server0))
     = [''Share download error:'']"
  by code_simp

lemma find_updateOne_narrow:
  assumes "find q xs = Some x" and "p x" and "\<And>y. p y \<Longrightarrow> q y" and "q (g x)"
  shows "find q (updateOne p g xs) = Some (g x)"
  using assms
proof (induction xs)
  case Nil
  then show ?case by simp
next
  case (Cons y ys)
  show ?case
  proof (cases "q y")
    case True
    with Cons.prems have "y = x" by simp
    with Cons.prems True show ?thesis by simp
  next
    case False
    with Cons.prems(3) have "\<not> p y" by blast
    with False Cons show ?thesis by simp
  qed
qed

lemma updateAccessStats_links:
  "shareLinks (snd (updateAccessStats now fileId d)) = shareLinks d"
  by (simp add: updateAccessStats_def)

lemma shareView_links:
  "shareLinks (store (snd (shareView ev now req sv))) = shareLinks (store sv)"
proof (cases "shareTokenSchema req")
  case None
  then show ?thesis by (simp add: shareView_def Let_def caught_store)
next
  case (Some token)
  show ?thesis
  proof (cases "validateShareLink now token (store sv)")
    case False
    obtain r d' where c: "createAuditLog (env_auditInsertFails ev) now
        (expiredAttempt token ''expired_or_max_access_reached'' req (store sv)) (store sv) = (r, d')"
      by (cases "createAuditLog (env_auditInsertFails ev) now
        (expiredAttempt token ''expired_or_max_access_reached'' req (store sv)) (store sv)")
    with createAuditLog_frame [of "env_auditInsertFails ev" now
        "expiredAttempt token ''expired_or_max_access_reached'' req (store sv)" "store sv"]
    have "shareLinks d' = shareLinks (store sv)" by simp
    with Some False c show ?thesis
      by (cases r) (simp_all add: shareView_def Let_def caught_store)
  next
    case True
    with Some show ?thesis
      by (auto simp add: shareView_def Let_def caught_store split: option.splits sum.splits)
  qed
qed



lemma caught_not_200: "status (fst (caught l m e sv)) \<noteq> 200"
  by (simp add: caught_def err_def)

lemma shareDownload_200:
  assumes ok: "status (fst (shareDownload ev now req sv)) = 200"
  shows "\<exists>token share. shareTokenSchema req = Some token \<and>
           validateShareLink now token (store sv) \<and>
           getShareLinkByToken token (store sv) = Some share \<and>
           shareLinks (store (snd (shareDownload ev now req sv)))
             = shareLinks (incrementShareAccess now token (store sv))"
proof (cases "shareTokenSchema req")
  case None
  with ok show ?thesis by (simp add: shareDownload_def Let_def caught_not_200)
next
  case (Some token)
  show ?thesis
  proof (cases "validateShareLink now token (store sv)")
    case False
    with Some ok show ?thesis
      by (auto simp add: shareDownload_def Let_def caught_not_200 err_def
          split: prod.splits sum.splits)
  next
    case True
    then obtain share where sh: "getShareLinkByToken token (store sv) = Some share"
      by (auto simp add: validateShareLink_def split: option.splits)
    let ?d1 = "incrementShareAccess now token (store sv)"
    from Some True sh ok obtain f url where
      f: "getFileById (sl_fileId share) (store sv) = Inr (Some f)"
      and url: "env_getDownloadUrl ev (f_s3Key f) (f_filename f) = Inr url"
      by (auto simp add: shareDownload_def Let_def caught_not_200 err_def
          split: option.splits sum.splits)
    obtain r2 d2 where u: "updateAccessStats now (sl_fileId share) ?d1 = (r2, d2)"
      by (cases "updateAccessStats now (sl_fileId share) ?d1")
    with updateAccessStats_links [of now "sl_fileId share" ?d1]
    have l2: "shareLinks d2 = shareLinks ?d1" by simp
    let ?v = "\<lparr>ad_fileId = Some (f_id f), ad_action = DOWNLOAD, ad_userId = None,
               ad_username = None, ad_ipAddress = routeIp req,
               ad_location = req_cfIpCountry req,
               ad_details = Some [(''via'', ''public_share_link''), (''token'', token)]\<rparr>"
    obtain r3 d3 where c: "createAuditLog (env_auditInsertFails ev) now ?v d2 = (r3, d3)"
      by (cases "createAuditLog (env_auditInsertFails ev) now ?v d2")
    with createAuditLog_frame [of "env_auditInsertFails ev" now ?v d2]
    have l3: "shareLinks d3 = shareLinks d2" by simp
    from Some True sh f url u c ok
    have "store (snd (shareDownload ev now req sv)) = d3"
      by (cases r2; cases r3)
        (simp_all add: shareDownload_def Let_def caught_not_200)
    with l2 l3 Some True sh show ?thesis by simp
  qed
qed

text \<open>
  The handler of the public download has the same order: a share that is not valid is
  answered without a download and with every share link as it was.
\<close>

lemma shareDownload_refused:
  assumes t: "shareTokenSchema req = Some token"
    and inv: "\<not> validateShareLink now token (store sv)"
  shows "shareLinks (store (snd (shareDownload ev now req sv))) = shareLinks (store sv)
       \<and> status (fst (shareDownload ev now req sv)) \<noteq> 200"
proof -
  let ?v = "expiredAttempt token ''download_attempt_after_expiry'' req (store sv)"
  obtain r d' where c: "createAuditLog (env_auditInsertFails ev) now ?v (store sv) = (r, d')"
    by (cases "createAuditLog (env_auditInsertFails ev) now ?v (store sv)")
  with createAuditLog_frame [of "env_auditInsertFails ev" now ?v "store sv"]
  have "shareLinks d' = shareLinks (store sv)" by simp
  with t inv c show ?thesis
    by (cases r) (simp_all add: shareDownload_def Let_def caught_store caught_not_200 err_def)
qed

text \<open>
  Claim C10. Viewing a share through \<^verbatim>\<open>GET /api/share/:token\<close> leaves every share link as it
  was, whatever the token and the answer; a download through
  \<^verbatim>\<open>POST /api/share/:token/download\<close> that answers 200 has raised the access count of the
  share of the token by one.
\<close>

theorem shareView_leaves_counter:
  "shareLinks (store (snd (shareView ev now req sv))) = shareLinks (store sv)
   \<and> (status (fst (shareDownload ev now req sv)) = 200 \<longrightarrow>
        (\<exists>token share. shareTokenSchema req = Some token \<and>
           getShareLinkByToken token (store sv) = Some share \<and>
           getShareLinkByToken token (store (snd (shareDownload ev now req sv)))
             = Some (share\<lparr>sl_accessCount := sl_accessCount share + 1, sl_updatedAt := now\<rparr>)))"
proof -
  have "\<exists>token share. shareTokenSchema req = Some token \<and>
           getShareLinkByToken token (store sv) = Some share \<and>
           getShareLinkByToken token (store (snd (shareDownload ev now req sv)))
             = Some (share\<lparr>sl_accessCount := sl_accessCount share + 1, sl_updatedAt := now\<rparr>)"
    if ok: "status (fst (shareDownload ev now req sv)) = 200"
  proof -
    from shareDownload_200 [OF ok] obtain token share where
      t: "shareTokenSchema req = Some token"
      and v: "validateShareLink now token (store sv)"
      and sh: "getShareLinkByToken token (store sv) = Some share"
      and links: "shareLinks (store (snd (shareDownload ev now req sv)))
             = shareLinks (incrementShareAccess now token (store sv))"
      by blast
    from v sh have cap: "case sl_maxAccessCount share of None \<Rightarrow> True
        | Some m \<Rightarrow> sl_accessCount share < m"
      by (simp add: validateShareLink_def)
    from sh have fnd: "find (\<lambda>s. sl_token s = token) (shareLinks (store sv)) = Some share"
      by (simp add: getShareLinkByToken_def findOne_def)
    then have tok: "sl_token share = token" by (auto simp add: find_Some_iff)
    have "find (\<lambda>s. sl_token s = token)
        (updateOne (\<lambda>s. sl_token s = token \<and>
                        (case sl_maxAccessCount s of None \<Rightarrow> True
                         | Some m \<Rightarrow> sl_accessCount s < m))
           (\<lambda>s. s\<lparr>sl_accessCount := sl_accessCount s + 1, sl_updatedAt := now\<rparr>)
           (shareLinks (store sv)))
        = Some (share\<lparr>sl_accessCount := sl_accessCount share + 1, sl_updatedAt := now\<rparr>)"
      using fnd by (rule find_updateOne_narrow) (use cap tok in simp_all)
    with links have "getShareLinkByToken token (store (snd (shareDownload ev now req sv)))
        = Some (share\<lparr>sl_accessCount := sl_accessCount share + 1, sl_updatedAt := now\<rparr>)"
      by (simp add: getShareLinkByToken_def findOne_def incrementShareAccess_def)
    with t sh show ?thesis by blast
  qed
  with shareView_links [of ev now req sv] show ?thesis by blast
qed

theorem shareView_leaves_counter_witness:
  "status (fst (shareView quiet 10 (tokenRequest tokenA) server0)) = 200
   \<and> shareLinks (store (snd (shareView quiet 10 (tokenRequest tokenA) server0))) = [linkA]
   \<and> status (fst (shareDownload quiet 10 (tokenRequest tokenA) server0)) = 200
   \<and> getShareLinkByToken tokenA (store (snd (shareDownload quiet 10 (tokenRequest tokenA) server0)))
       = Some consumedLink"
proof -
  have v: "status (fst (shareView quiet 10 (tokenRequest tokenA) server0)) = 200" by code_simp
  have l: "shareLinks (store server0) = [linkA]" by code_simp
  have d: "status (fst (shareDownload quiet 10 (tokenRequest tokenA) server0)) = 200" by code_simp
  have t: "shareTokenSchema (tokenRequest tokenA) = Some tokenA" by code_simp
  have s: "getShareLinkByToken tokenA (store server0) = Some linkA" by code_simp
  have c: "linkA\<lparr>sl_accessCount := sl_accessCount linkA + 1, sl_updatedAt := 10\<rparr> = consumedLink"
    by code_simp
  from shareView_leaves_counter [of quiet 10 "tokenRequest tokenA" server0] v l d t s c
  show ?thesis by auto
qed

end
